theory Spec2Isabelle
  imports Main "HOL-Library.Word" "HOL-Library.Log_Nat"
begin

section \<open>Machine types of the JNI wrapper\<close>

text \<open>
  The wrapper \<^verbatim>\<open>ndi_wrapper.c\<close> is built for the 64-bit Android ABI named in its
  header comment (\<^verbatim>\<open>jniLibs/arm64-v8a\<close>): \<^verbatim>\<open>int\<close>, \<^verbatim>\<open>jint\<close>, \<^verbatim>\<open>uint32_t\<close> are 32-bit
  words, \<^verbatim>\<open>jlong\<close>, \<^verbatim>\<open>int64_t\<close>, \<^verbatim>\<open>size_t\<close> and pointers are 64-bit words.  A signed
  quantity is read with \<open>sint\<close>, a widening cast of a signed value is \<open>scast\<close>,
  the null pointer is the word \<open>0\<close>.
\<close>

type_synonym jint = "32 word"
type_synonym jlong = "64 word"
type_synonym addr = "64 word"

section \<open>Format mappers\<close>

text \<open>
  The two enumerations are declared by the SDK header \<^verbatim>\<open>Processing.NDI.Lib.h\<close>; the
  wrapper only names their constants, so each constant is a constructor here.
\<close>

datatype NDIlib_recv_bandwidth_e =
    NDIlib_recv_bandwidth_metadata_only
  | NDIlib_recv_bandwidth_audio_only
  | NDIlib_recv_bandwidth_lowest
  | NDIlib_recv_bandwidth_highest

datatype NDIlib_recv_color_format_e =
    NDIlib_recv_color_format_BGRX_BGRA
  | NDIlib_recv_color_format_UYVY_BGRA
  | NDIlib_recv_color_format_RGBX_RGBA
  | NDIlib_recv_color_format_UYVY_RGBA
  | NDIlib_recv_color_format_fastest
  | NDIlib_recv_color_format_best

text \<open>\<^verbatim>\<open>map_bandwidth\<close>: a \<^verbatim>\<open>switch\<close> on the \<^verbatim>\<open>jint\<close> with a \<^verbatim>\<open>default\<close> branch.\<close>

definition map_bandwidth :: "jint \<Rightarrow> NDIlib_recv_bandwidth_e" where
  "map_bandwidth bandwidth =
     (if bandwidth = 0 then NDIlib_recv_bandwidth_metadata_only
      else if bandwidth = 1 then NDIlib_recv_bandwidth_audio_only
      else if bandwidth = 2 then NDIlib_recv_bandwidth_lowest
      else if bandwidth = 3 then NDIlib_recv_bandwidth_highest
      else NDIlib_recv_bandwidth_highest)"

text \<open>\<^verbatim>\<open>map_color_format\<close>: the same shape, with the two sparse cases 100 and 101.\<close>

definition map_color_format :: "jint \<Rightarrow> NDIlib_recv_color_format_e" where
  "map_color_format colorFormat =
     (if colorFormat = 0 then NDIlib_recv_color_format_BGRX_BGRA
      else if colorFormat = 1 then NDIlib_recv_color_format_UYVY_BGRA
      else if colorFormat = 2 then NDIlib_recv_color_format_RGBX_RGBA
      else if colorFormat = 3 then NDIlib_recv_color_format_UYVY_RGBA
      else if colorFormat = 100 then NDIlib_recv_color_format_fastest
      else if colorFormat = 101 then NDIlib_recv_color_format_best
      else NDIlib_recv_color_format_UYVY_BGRA)"

section \<open>Library lifecycle\<close>

text \<open>
  The process-wide state of the library session: the C global \<^verbatim>\<open>g_initialized\<close>
  (a \<^verbatim>\<open>volatile int\<close>, tested for being non-zero) and, to observe what the wrapper
  asks of the engine, the number of times \<^verbatim>\<open>NDIlib_initialize\<close> and
  \<^verbatim>\<open>NDIlib_destroy\<close> have been called.  The mutex \<^verbatim>\<open>g_init_mutex\<close> only serialises
  the calls and is locked and unlocked on every path; the model is sequential.
\<close>

record lib_state =
  g_initialized :: int
  engine_initialize_calls :: nat
  engine_destroy_calls :: nat

text \<open>
  \<^verbatim>\<open>initialize\<close>: the first argument is what \<^verbatim>\<open>NDIlib_initialize()\<close> would return if
  it were called now; the result is the \<^verbatim>\<open>jboolean\<close> and the state afterwards.
\<close>

definition initialize :: "bool \<Rightarrow> lib_state \<Rightarrow> bool \<times> lib_state" where
  "initialize engine_ok st =
     (if g_initialized st \<noteq> 0 then (True, st)
      else
        let st1 = st\<lparr>engine_initialize_calls := Suc (engine_initialize_calls st)\<rparr>
        in if \<not> engine_ok then (False, st1)
           else (True, st1\<lparr>g_initialized := 1\<rparr>))"

definition destroy :: "lib_state \<Rightarrow> lib_state" where
  "destroy st =
     (if \<not> (g_initialized st \<noteq> 0) then st
      else st\<lparr>engine_destroy_calls := Suc (engine_destroy_calls st), g_initialized := 0\<rparr>)"

definition isInitialized :: "lib_state \<Rightarrow> bool" where
  "isInitialized st = (if g_initialized st \<noteq> 0 then True else False)"

text \<open>The state of a freshly loaded library: the static initialiser of the global.\<close>

definition fresh_lib :: lib_state where
  "fresh_lib = \<lparr>g_initialized = 0, engine_initialize_calls = 0, engine_destroy_calls = 0\<rparr>"

section \<open>Engine frames, handles and the world of a receiver\<close>

text \<open>
  The frame descriptors are declared by the SDK header; the records below hold the
  fields the wrapper reads.  \<^verbatim>\<open>line_stride_in_bytes\<close> and \<^verbatim>\<open>data_size_in_bytes\<close> are
  kept as two fields, as the wrapper names them; where a header overlays them in a
  union they carry the same value, which is one instance of what is proved for all
  values.  Fields of the audio frame and of the handle structs whose C names repeat
  those of another struct carry a prefix (\<open>audio_\<close>, \<open>vh_\<close>, \<open>ah_\<close>).
\<close>

datatype NDIlib_frame_type_e =
    NDIlib_frame_type_none
  | NDIlib_frame_type_video
  | NDIlib_frame_type_audio
  | NDIlib_frame_type_metadata
  | NDIlib_frame_type_error
  | NDIlib_frame_type_status_change

datatype NDIlib_frame_format_type_e =
    NDIlib_frame_format_type_progressive
  | NDIlib_frame_format_type_interleaved
  | NDIlib_frame_format_type_field_0
  | NDIlib_frame_format_type_field_1

record NDIlib_video_frame_v2_t =
  xres :: jint
  yres :: jint
  FourCC :: "32 word"
  frame_rate_N :: jint
  frame_rate_D :: jint
  frame_format_type :: NDIlib_frame_format_type_e
  p_data :: addr
  line_stride_in_bytes :: jint
  data_size_in_bytes :: jint
  timestamp :: jlong

record NDIlib_audio_frame_v2_t =
  sample_rate :: jint
  no_channels :: jint
  no_samples :: jint
  audio_p_data :: addr
  channel_stride_in_bytes :: jint
  audio_timestamp :: jlong

text \<open>The Kotlin FourCC constants for compressed frames.\<close>

definition FOURCC_H264 :: "32 word" where
  "FOURCC_H264 = 0x34363248"

definition FOURCC_HEVC :: "32 word" where
  "FOURCC_HEVC = 0x43564548"

record NdiReceiverWrapper =
  recv :: addr
  surface_window :: addr

record NdiVideoFrameHandle =
  vh_recv :: addr
  vh_frame :: NDIlib_video_frame_v2_t

record NdiAudioFrameHandle =
  ah_recv :: addr
  ah_frame :: NDIlib_audio_frame_v2_t
  interleaved_data :: addr
  interleaved_bytes :: "64 word"

text \<open>
  What the wrapper asks of the engine, in the order of the calls.  The capture call
  is \<^verbatim>\<open>NDIlib_recv_capture_v2\<close> with only the video, respectively only the audio,
  descriptor passed; a release carries the receive instance and the descriptor handed
  back.
\<close>

datatype ndi_call =
    Recv_capture_video addr "32 word"
  | Recv_capture_audio addr "32 word"
  | Recv_free_video_v2 addr NDIlib_video_frame_v2_t
  | Recv_free_audio_v2 addr NDIlib_audio_frame_v2_t

text \<open>
  The heap as the wrapper sees it: every handle is the address of a struct obtained
  from \<^verbatim>\<open>calloc\<close>, cast to a \<^verbatim>\<open>jlong\<close>.  \<open>'s\<close> is the type of one 32-bit float sample;
  samples are only copied, never computed with.  The per-object mutexes are taken and
  given back on every path and only serialise the calls; the model is sequential and
  leaves them out.
\<close>

record 's world =
  receivers :: "addr \<rightharpoonup> NdiReceiverWrapper"
  video_handles :: "addr \<rightharpoonup> NdiVideoFrameHandle"
  audio_handles :: "addr \<rightharpoonup> NdiAudioFrameHandle"
  float_buffers :: "addr \<rightharpoonup> 's list"
  engine_calls :: "ndi_call list"

text \<open>
  A handle that is neither zero nor the address of a live struct makes the C code
  dereference a wild pointer; the model reports it as a fault.
\<close>

datatype fault = Wild_pointer

text \<open>The objects handed to the managed side, field by constructor argument.\<close>

record ByteBuffer =
  bb_address :: addr
  bb_capacity :: jlong

record VideoFrame =
  vf_framePtr :: jlong
  vf_width :: jint
  vf_height :: jint
  vf_stride :: jint
  vf_frameRateN :: jint
  vf_frameRateD :: jint
  vf_fourCC :: jint
  vf_timestamp :: jlong
  vf_buffer :: ByteBuffer
  vf_isProgressive :: bool

record AudioFrame =
  af_framePtr :: jlong
  af_sampleRate :: jint
  af_channels :: jint
  af_samplesPerChannel :: jint
  af_timestamp :: jlong
  af_buffer :: ByteBuffer

section \<open>Video capture\<close>

text \<open>
  What the environment answers during one \<^verbatim>\<open>receiverCaptureVideo\<close>: whether the
  callback-schema cache resolves, the address \<^verbatim>\<open>calloc\<close> returns (0 when out of
  memory), the frame type the engine returns and the descriptor it leaves in
  \<^verbatim>\<open>handle->frame\<close>, and whether \<^verbatim>\<open>NewDirectByteBuffer\<close> and \<^verbatim>\<open>NewObject\<close> succeed.
\<close>

record video_env =
  ve_jni_cache_ok :: bool
  ve_calloc :: addr
  ve_frame_type :: NDIlib_frame_type_e
  ve_frame :: NDIlib_video_frame_v2_t
  ve_byte_buffer_ok :: bool
  ve_new_object_ok :: bool

definition is_compressed :: "NDIlib_video_frame_v2_t \<Rightarrow> bool" where
  "is_compressed f = (FourCC f = FOURCC_H264 \<or> FourCC f = FOURCC_HEVC)"

text \<open>
  The local \<^verbatim>\<open>buffer_size\<close>: \<^verbatim>\<open>jlong\<close> arithmetic on the sign-extended \<^verbatim>\<open>int\<close> fields.
\<close>

definition buffer_size :: "NDIlib_video_frame_v2_t \<Rightarrow> jlong" where
  "buffer_size f =
     (if is_compressed f then scast (data_size_in_bytes f)
      else
        let stride = (scast (line_stride_in_bytes f) :: jlong);
            abs_stride = (if sint stride < 0 then - stride else stride)
        in abs_stride * scast (yres f))"

text \<open>
  \<^verbatim>\<open>NDIlib_recv_free_video_v2(wrapper->recv, &handle->frame); free(handle);\<close>
\<close>

definition release_video :: "'s world \<Rightarrow> NdiReceiverWrapper \<Rightarrow> addr \<Rightarrow> NdiVideoFrameHandle \<Rightarrow> 's world" where
  "release_video w wrapper a handle =
     w\<lparr>engine_calls := engine_calls w @ [Recv_free_video_v2 (recv wrapper) (vh_frame handle)],
       video_handles := (video_handles w)(a := None)\<rparr>"

definition receiverCaptureVideo ::
    "video_env \<Rightarrow> 's world \<Rightarrow> jlong \<Rightarrow> jint \<Rightarrow> fault + (VideoFrame option \<times> 's world)" where
  "receiverCaptureVideo e w receiverPtr timeoutMs =
     (if receiverPtr = 0 then Inr (None, w)
      else case receivers w receiverPtr of
        None \<Rightarrow> Inl Wild_pointer
      | Some wrapper \<Rightarrow>
          if recv wrapper = 0 then Inr (None, w)
          else if \<not> ve_jni_cache_ok e then Inr (None, w)
          else if ve_calloc e = 0 then Inr (None, w)
          else
            let handle = \<lparr>vh_recv = recv wrapper, vh_frame = ve_frame e\<rparr>;
                w1 = w\<lparr>engine_calls := engine_calls w @ [Recv_capture_video (recv wrapper) timeoutMs],
                       video_handles := (video_handles w)(ve_calloc e \<mapsto> handle)\<rparr>
            in
              if ve_frame_type e \<noteq> NDIlib_frame_type_video
              then Inr (None, w1\<lparr>video_handles := (video_handles w1)(ve_calloc e := None)\<rparr>)
              else if p_data (vh_frame handle) = 0
              then Inr (None, release_video w1 wrapper (ve_calloc e) handle)
              else if sint (buffer_size (vh_frame handle)) \<le> 0
              then Inr (None, release_video w1 wrapper (ve_calloc e) handle)
              else if \<not> ve_byte_buffer_ok e
              then Inr (None, release_video w1 wrapper (ve_calloc e) handle)
              else
                let byteBuffer = \<lparr>bb_address = p_data (vh_frame handle),
                                   bb_capacity = buffer_size (vh_frame handle)\<rparr>;
                    is_progressive =
                      (frame_format_type (vh_frame handle) = NDIlib_frame_format_type_progressive);
                    out_stride =
                      (if is_compressed (vh_frame handle) then 0
                       else line_stride_in_bytes (vh_frame handle))
                in
                  if \<not> ve_new_object_ok e
                  then Inr (None, release_video w1 wrapper (ve_calloc e) handle)
                  else Inr (Some \<lparr>vf_framePtr = ve_calloc e,
                                   vf_width = xres (vh_frame handle),
                                   vf_height = yres (vh_frame handle),
                                   vf_stride = out_stride,
                                   vf_frameRateN = frame_rate_N (vh_frame handle),
                                   vf_frameRateD = frame_rate_D (vh_frame handle),
                                   vf_fourCC = FourCC (vh_frame handle),
                                   vf_timestamp = timestamp (vh_frame handle),
                                   vf_buffer = byteBuffer,
                                   vf_isProgressive = is_progressive\<rparr>, w1))"

text \<open>
  \<^verbatim>\<open>receiverFreeVideo\<close>: both branches make the same engine call; with a non-zero
  receiver handle the wrapper's mutex is taken first, which dereferences it.
\<close>

definition receiverFreeVideo :: "'s world \<Rightarrow> jlong \<Rightarrow> jlong \<Rightarrow> fault + 's world" where
  "receiverFreeVideo w receiverPtr framePtr =
     (if framePtr = 0 then Inr w
      else case video_handles w framePtr of
        None \<Rightarrow> Inl Wild_pointer
      | Some handle \<Rightarrow>
          if receiverPtr \<noteq> 0 \<and> receivers w receiverPtr = None then Inl Wild_pointer
          else Inr (w\<lparr>engine_calls :=
                         engine_calls w @ [Recv_free_video_v2 (vh_recv handle) (vh_frame handle)],
                       video_handles := (video_handles w)(framePtr := None)\<rparr>))"

section \<open>Audio capture\<close>

text \<open>
  What the environment answers during one \<^verbatim>\<open>receiverCaptureAudio\<close>: as for video, and
  in addition the address \<^verbatim>\<open>malloc\<close> returns for the interleaved buffer (0 when out of
  memory), what that fresh memory happens to hold (\<open>ae_uninit\<close>, by float index), and the
  engine's sample memory: \<open>ae_memory a\<close> is the float stored at byte address \<open>a\<close>.  The
  fresh buffer is disjoint from the engine's memory, so the reads of the conversion see
  the engine's samples only.
\<close>

record 's audio_env =
  ae_jni_cache_ok :: bool
  ae_calloc :: addr
  ae_frame_type :: NDIlib_frame_type_e
  ae_frame :: NDIlib_audio_frame_v2_t
  ae_malloc :: addr
  ae_uninit :: "nat \<Rightarrow> 's"
  ae_memory :: "addr \<Rightarrow> 's"
  ae_byte_buffer_ok :: bool
  ae_new_object_ok :: bool

text \<open>
  The inner loop \<^verbatim>\<open>for (int c = 0; c < channels; c++)\<close> at sample \<open>s\<close>, started at
  channel \<open>c\<close>: \<^verbatim>\<open>channel_ptr = base + (size_t)c * (size_t)channel_stride_in_bytes\<close>,
  \<^verbatim>\<open>interleaved_data[(size_t)s * (size_t)channels + (size_t)c] = channel_ptr[s]\<close>.
  The counters never exceed the positive \<^verbatim>\<open>int\<close> bounds, so they are natural numbers;
  the address and index arithmetic is that of \<^verbatim>\<open>size_t\<close>.  A store past the end of the
  buffer would be a heap overflow in C and leaves the list unchanged here; lemma
  \<open>written_index_in_buffer\<close> below shows that every index written lies inside the
  buffer.
\<close>

function interleave_channels ::
    "(addr \<Rightarrow> 's) \<Rightarrow> NDIlib_audio_frame_v2_t \<Rightarrow> nat \<Rightarrow> nat \<Rightarrow> 's list \<Rightarrow> 's list" where
  "interleave_channels mem f s c out =
     (if int c < sint (no_channels f) then
        let channel_ptr = audio_p_data f + of_nat c * scast (channel_stride_in_bytes f);
            idx = (of_nat s * scast (no_channels f) + of_nat c :: 64 word)
        in interleave_channels mem f s (Suc c)
             (out[unat idx := mem (channel_ptr + 4 * of_nat s)])
      else out)"
  by pat_completeness auto
termination
  by (relation "measure (\<lambda>(mem, f, s, c, out). nat (sint (no_channels f)) - c)") auto

text \<open>The outer loop \<^verbatim>\<open>for (int s = 0; s < samples_per_channel; s++)\<close>, started at \<open>s\<close>.\<close>

function interleave_samples ::
    "(addr \<Rightarrow> 's) \<Rightarrow> NDIlib_audio_frame_v2_t \<Rightarrow> nat \<Rightarrow> 's list \<Rightarrow> 's list" where
  "interleave_samples mem f s out =
     (if int s < sint (no_samples f)
      then interleave_samples mem f (Suc s) (interleave_channels mem f s 0 out)
      else out)"
  by pat_completeness auto
termination
  by (relation "measure (\<lambda>(mem, f, s, out). nat (sint (no_samples f)) - s)") auto

text \<open>
  \<^verbatim>\<open>NDIlib_recv_free_audio_v2(wrapper->recv, &handle->frame); free(handle);\<close>
\<close>

definition release_audio :: "'s world \<Rightarrow> NdiReceiverWrapper \<Rightarrow> addr \<Rightarrow> NdiAudioFrameHandle \<Rightarrow> 's world" where
  "release_audio w wrapper a handle =
     w\<lparr>engine_calls := engine_calls w @ [Recv_free_audio_v2 (recv wrapper) (ah_frame handle)],
       audio_handles := (audio_handles w)(a := None)\<rparr>"

text \<open>The same, with \<^verbatim>\<open>free(handle->interleaved_data)\<close> before \<^verbatim>\<open>free(handle)\<close>.\<close>

definition release_audio_and_buffer ::
    "'s world \<Rightarrow> NdiReceiverWrapper \<Rightarrow> addr \<Rightarrow> NdiAudioFrameHandle \<Rightarrow> 's world" where
  "release_audio_and_buffer w wrapper a handle =
     w\<lparr>engine_calls := engine_calls w @ [Recv_free_audio_v2 (recv wrapper) (ah_frame handle)],
       float_buffers := (float_buffers w)(interleaved_data handle := None),
       audio_handles := (audio_handles w)(a := None)\<rparr>"

definition receiverCaptureAudio ::
    "'s audio_env \<Rightarrow> 's world \<Rightarrow> jlong \<Rightarrow> jint \<Rightarrow> fault + (AudioFrame option \<times> 's world)" where
  "receiverCaptureAudio e w receiverPtr timeoutMs =
     (if receiverPtr = 0 then Inr (None, w)
      else case receivers w receiverPtr of
        None \<Rightarrow> Inl Wild_pointer
      | Some wrapper \<Rightarrow>
          if recv wrapper = 0 then Inr (None, w)
          else if \<not> ae_jni_cache_ok e then Inr (None, w)
          else if ae_calloc e = 0 then Inr (None, w)
          else
            let handle = \<lparr>ah_recv = recv wrapper, ah_frame = ae_frame e,
                           interleaved_data = 0, interleaved_bytes = 0\<rparr>;
                w1 = w\<lparr>engine_calls := engine_calls w @ [Recv_capture_audio (recv wrapper) timeoutMs],
                       audio_handles := (audio_handles w)(ae_calloc e \<mapsto> handle)\<rparr>
            in
              if ae_frame_type e \<noteq> NDIlib_frame_type_audio
              then Inr (None, w1\<lparr>audio_handles := (audio_handles w1)(ae_calloc e := None)\<rparr>)
              else
                let f = ah_frame handle in
                if audio_p_data f = 0 \<or> sint (sample_rate f) \<le> 0 \<or>
                   sint (no_channels f) \<le> 0 \<or> sint (no_samples f) \<le> 0
                then Inr (None, release_audio w1 wrapper (ae_calloc e) handle)
                else
                  let total_samples = (scast (no_channels f) * scast (no_samples f) :: 64 word);
                      bytes = total_samples * 4;
                      handle2 = handle\<lparr>interleaved_data := ae_malloc e, interleaved_bytes := bytes\<rparr>
                  in
                    if ae_malloc e = 0
                    then Inr (None, release_audio w1 wrapper (ae_calloc e) handle2)
                    else
                      let out = interleave_samples (ae_memory e) f 0
                                  (map (ae_uninit e) [0 ..< unat bytes div 4]);
                          w2 = w1\<lparr>audio_handles := (audio_handles w1)(ae_calloc e \<mapsto> handle2),
                                  float_buffers := (float_buffers w1)(ae_malloc e \<mapsto> out)\<rparr>;
                          byteBuffer = \<lparr>bb_address = interleaved_data handle2,
                                         bb_capacity = interleaved_bytes handle2\<rparr>
                      in
                        if \<not> ae_byte_buffer_ok e
                        then Inr (None, release_audio_and_buffer w2 wrapper (ae_calloc e) handle2)
                        else if \<not> ae_new_object_ok e
                        then Inr (None, release_audio_and_buffer w2 wrapper (ae_calloc e) handle2)
                        else Inr (Some \<lparr>af_framePtr = ae_calloc e,
                                         af_sampleRate = sample_rate f,
                                         af_channels = no_channels f,
                                         af_samplesPerChannel = no_samples f,
                                         af_timestamp = audio_timestamp f,
                                         af_buffer = byteBuffer\<rparr>, w2))"

text \<open>
  \<^verbatim>\<open>receiverFreeAudio\<close>: the engine call on the descriptor kept in the handle, then
  \<^verbatim>\<open>free(handle->interleaved_data); free(handle);\<close>.  As for video, a non-zero receiver
  handle is dereferenced for its mutex.
\<close>

definition receiverFreeAudio :: "'s world \<Rightarrow> jlong \<Rightarrow> jlong \<Rightarrow> fault + 's world" where
  "receiverFreeAudio w receiverPtr framePtr =
     (if framePtr = 0 then Inr w
      else case audio_handles w framePtr of
        None \<Rightarrow> Inl Wild_pointer
      | Some handle \<Rightarrow>
          if receiverPtr \<noteq> 0 \<and> receivers w receiverPtr = None then Inl Wild_pointer
          else Inr (w\<lparr>engine_calls :=
                         engine_calls w @ [Recv_free_audio_v2 (ah_recv handle) (ah_frame handle)],
                       float_buffers := (float_buffers w)(interleaved_data handle := None),
                       audio_handles := (audio_handles w)(framePtr := None)\<rparr>))"

text \<open>
  The byte address the spec gives for the \<open>s\<close>-th sample of planar channel \<open>c\<close>: the
  channel's block starts \<open>c\<close> times the channel stride after the base pointer, and a
  sample is four bytes.
\<close>

definition planar_sample_address :: "NDIlib_audio_frame_v2_t \<Rightarrow> nat \<Rightarrow> nat \<Rightarrow> addr" where
  "planar_sample_address f c s =
     audio_p_data f + of_nat c * scast (channel_stride_in_bytes f) + 4 * of_nat s"

declare interleave_channels.simps [simp del] interleave_samples.simps [simp del]

section \<open>Performance query and quality score\<close>

text \<open>
  The score is computed in C \<^verbatim>\<open>double\<close> arithmetic.  A finite double is modelled by the
  rational number it denotes, and every operation by the exact result rounded to the
  nearest double, ties to even (IEEE 754 binary64, 53-bit significand).  The values
  that occur here (64-bit counters, their quotient, a product with 100 and a
  difference from 100) stay inside the normal range, so neither overflow nor
  subnormal numbers have to be modelled.
\<close>

definition round_ties_even :: "rat \<Rightarrow> int" where
  "round_ties_even x =
     (let f = \<lfloor>x\<rfloor>; r = x - of_int f
      in if r < 1 / 2 then f else if 1 / 2 < r then f + 1 else if even f then f else f + 1)"

definition pow2 :: "int \<Rightarrow> rat" where
  "pow2 k = (if 0 \<le> k then 2 ^ nat k else 1 / 2 ^ nat (- k))"

text \<open>The exponent \<open>e\<close> with \<open>2 ^ e \<le> \<bar>x\<bar> < 2 ^ (e + 1)\<close>, for \<open>x \<noteq> 0\<close>.\<close>

definition binade :: "rat \<Rightarrow> int" where
  "binade x =
     (if 1 \<le> \<bar>x\<bar> then bitlen \<lfloor>\<bar>x\<bar>\<rfloor> - 1 else - bitlen (\<lceil>1 / \<bar>x\<bar>\<rceil> - 1))"

definition to_double :: "rat \<Rightarrow> rat" where
  "to_double x =
     (if x = 0 then 0
      else let u = pow2 (binade x - 52) in of_int (round_ties_even (x / u)) * u)"

text \<open>
  The cast \<^verbatim>\<open>(int)\<close> of a double truncates toward zero.  When the truncated value
  cannot be represented in an \<^verbatim>\<open>int\<close> the C standard leaves the behaviour undefined;
  the model does not choose: the \<^verbatim>\<open>int\<close> such a cast produces on the platform is an
  answer of the environment (\<open>out_of_range\<close>), and may be any value.
\<close>

definition truncate_toward_zero :: "rat \<Rightarrow> int" where
  "truncate_toward_zero x = (if 0 \<le> x then \<lfloor>x\<rfloor> else \<lceil>x\<rceil>)"

definition int_representable :: "rat \<Rightarrow> bool" where
  "int_representable x =
     (- 2147483648 \<le> truncate_toward_zero x \<and> truncate_toward_zero x \<le> 2147483647)"

definition c_int_cast :: "jint \<Rightarrow> rat \<Rightarrow> jint" where
  "c_int_cast out_of_range x =
     (if int_representable x then word_of_int (truncate_toward_zero x) else out_of_range)"

text \<open>
  \<^verbatim>\<open>drop_rate = (double)dropped.video_frames / (double)total.video_frames\<close> and the
  double \<^verbatim>\<open>100.0 - (drop_rate * 100.0)\<close>.  C lets an implementation contract the
  product and the difference into one fused operation with a single rounding;
  \<open>contract\<close> says whether the build does.
\<close>

definition drop_rate :: "jlong \<Rightarrow> jlong \<Rightarrow> rat" where
  "drop_rate dropped_frames total_frames =
     to_double (to_double (of_int (sint dropped_frames)) / to_double (of_int (sint total_frames)))"

definition kept_percent :: "bool \<Rightarrow> jlong \<Rightarrow> jlong \<Rightarrow> rat" where
  "kept_percent contract dropped_frames total_frames =
     (if contract then to_double (100 - drop_rate dropped_frames total_frames * 100)
      else to_double (100 - to_double (drop_rate dropped_frames total_frames * 100)))"

text \<open>The local \<^verbatim>\<open>quality\<close> of \<^verbatim>\<open>receiverGetPerformance\<close>.\<close>

definition quality :: "bool \<Rightarrow> jint \<Rightarrow> jint \<Rightarrow> jlong \<Rightarrow> jlong \<Rightarrow> jint" where
  "quality contract out_of_range connections total_frames dropped_frames =
     (if 0 < sint connections then
        if 0 < sint total_frames then
          let q = c_int_cast out_of_range (kept_percent contract dropped_frames total_frames);
              q1 = (if sint q < 0 then 0 else q);
              q2 = (if 100 < sint q1 then 100 else q1)
          in q2
        else 100
      else 0)"

record NDIlib_recv_performance_t =
  video_frames :: jlong
  audio_frames :: jlong
  metadata_frames :: jlong

record ReceiverPerformance =
  rp_videoTotal :: jlong
  rp_videoDropped :: jlong
  rp_audioTotal :: jlong
  rp_audioDropped :: jlong
  rp_metadataTotal :: jlong
  rp_quality :: jint

text \<open>
  What the environment answers during one \<^verbatim>\<open>receiverGetPerformance\<close>: the cache, the
  two counter structs and the connection count the engine reports, whether the build
  contracts the multiply and subtract, the \<^verbatim>\<open>int\<close> an out-of-range cast produces, and
  whether \<^verbatim>\<open>NewObject\<close> succeeds.
\<close>

record perf_env =
  pe_jni_cache_ok :: bool
  pe_total :: NDIlib_recv_performance_t
  pe_dropped :: NDIlib_recv_performance_t
  pe_connections :: jint
  pe_fp_contract :: bool
  pe_int_cast_out_of_range :: jint
  pe_new_object_ok :: bool

definition receiverGetPerformance ::
    "perf_env \<Rightarrow> 's world \<Rightarrow> jlong \<Rightarrow> fault + ReceiverPerformance option" where
  "receiverGetPerformance e w receiverPtr =
     (if receiverPtr = 0 then Inr None
      else case receivers w receiverPtr of
        None \<Rightarrow> Inl Wild_pointer
      | Some wrapper \<Rightarrow>
          if recv wrapper = 0 then Inr None
          else if \<not> pe_jni_cache_ok e then Inr None
          else if \<not> pe_new_object_ok e then Inr None
          else Inr (Some
            \<lparr>rp_videoTotal = video_frames (pe_total e),
              rp_videoDropped = video_frames (pe_dropped e),
              rp_audioTotal = audio_frames (pe_total e),
              rp_audioDropped = audio_frames (pe_dropped e),
              rp_metadataTotal = metadata_frames (pe_total e),
              rp_quality = quality (pe_fp_contract e) (pe_int_cast_out_of_range e)
                             (pe_connections e)
                             (video_frames (pe_total e)) (video_frames (pe_dropped e))\<rparr>))"

text \<open>
  The score as the spec words it: 0 without a connection, 100 with connections and no
  video frame totalled, otherwise \<open>clamp(round(100 * (1 - dropped / total)), 0, 100)\<close>
  in exact arithmetic.
\<close>

definition spec_quality :: "int \<Rightarrow> int \<Rightarrow> int \<Rightarrow> int" where
  "spec_quality connections total_frames dropped_frames =
     (if connections = 0 then 0
      else if total_frames = 0 then 100
      else max 0 (min 100
             (round (100 * (1 - (of_int dropped_frames / of_int total_frames :: rat))))))"

section \<open>Source discovery\<close>

record NdiFinderWrapper =
  finder :: addr

text \<open>
  What the environment answers during one \<^verbatim>\<open>finderGetSources\<close>: the count and the array
  \<^verbatim>\<open>NDIlib_find_get_current_sources\<close> returns (\<open>None\<close> for a null array pointer, and
  \<open>None\<close> for a null \<^verbatim>\<open>p_ndi_name\<close> inside it), whether \<^verbatim>\<open>FindClass\<close> and
  \<^verbatim>\<open>NewObjectArray\<close> succeed, and whether \<^verbatim>\<open>NewStringUTF\<close> succeeds for the \<open>i\<close>-th name.
\<close>

record finder_env =
  fe_no_sources :: "32 word"
  fe_sources :: "string option list option"
  fe_find_class_ok :: bool
  fe_new_array_ok :: bool
  fe_new_string_ok :: "nat \<Rightarrow> bool"

text \<open>
  The loop \<^verbatim>\<open>for (uint32_t i = 0; i < no_sources; i++)\<close>, started at \<open>i\<close>.  A Java array
  element is a string or null.  Reading \<^verbatim>\<open>sources[i]\<close> past the end of the engine's
  array is a fault.
\<close>

function fill_sources ::
    "finder_env \<Rightarrow> nat \<Rightarrow> string option list \<Rightarrow> fault + string option list" where
  "fill_sources e i result =
     (if i < unat (fe_no_sources e) then
        (case (case fe_sources e of
                 None \<Rightarrow> Inr None
               | Some sources \<Rightarrow> if i < length sources then Inr (sources ! i) else Inl Wild_pointer) of
           Inl x \<Rightarrow> Inl x
         | Inr name_c \<Rightarrow>
             let name = (if fe_new_string_ok e i
                         then Some (case name_c of None \<Rightarrow> '''' | Some n \<Rightarrow> n)
                         else None)
             in fill_sources e (Suc i) (if name \<noteq> None then result[i := name] else result))
      else Inr result)"
  by pat_completeness auto
termination
  by (relation "measure (\<lambda>(e, i, result). unat (fe_no_sources e) - i)") auto

declare fill_sources.simps [simp del]

text \<open>
  \<^verbatim>\<open>finderGetSources\<close>: the result is the \<^verbatim>\<open>jobjectArray\<close>, \<open>None\<close> for \<^verbatim>\<open>NULL\<close>.
\<close>

definition finderGetSources ::
    "finder_env \<Rightarrow> (addr \<rightharpoonup> NdiFinderWrapper) \<Rightarrow> jlong \<Rightarrow> fault + string option list option" where
  "finderGetSources e finders finderPtr =
     (if finderPtr = 0 then Inr None
      else case finders finderPtr of
        None \<Rightarrow> Inl Wild_pointer
      | Some wrapper \<Rightarrow>
          if finder wrapper = 0 then Inr None
          else if \<not> fe_find_class_ok e then Inr None
          else if \<not> fe_new_array_ok e then Inr None
          else (case fill_sources e 0 (replicate (unat (fe_no_sources e)) None) of
                  Inl x \<Rightarrow> Inl x
                | Inr result \<Rightarrow> Inr (Some result)))"

text \<open>
  The array element the loop leaves at index \<open>i\<close>: the \<open>i\<close>-th name (the empty string
  for a null name pointer) when \<^verbatim>\<open>NewStringUTF\<close> succeeds, null otherwise.
\<close>

definition source_name :: "finder_env \<Rightarrow> string option list \<Rightarrow> nat \<Rightarrow> string option" where
  "source_name e srcs i =
     (if fe_new_string_ok e i then Some (case srcs ! i of None \<Rightarrow> '''' | Some n \<Rightarrow> n) else None)"

section \<open>Example inputs\<close>

text \<open>
  A world with one receiver at address \<open>0x7000\<close>, an uncompressed UYVY frame stored
  bottom-up (negative stride), and an H.264 frame whose two size fields carry the same
  value.
\<close>

definition example_world :: "'s world" where
  "example_world =
     \<lparr>receivers = [0x7000 \<mapsto> \<lparr>recv = 0x5000, surface_window = 0\<rparr>],
       video_handles = Map.empty,
       audio_handles = Map.empty,
       float_buffers = Map.empty,
       engine_calls = []\<rparr>"

definition example_video_frame :: NDIlib_video_frame_v2_t where
  "example_video_frame =
     \<lparr>xres = 1920, yres = 1080, FourCC = 0x59565955, frame_rate_N = 30000, frame_rate_D = 1001,
       frame_format_type = NDIlib_frame_format_type_progressive, p_data = 0x100000,
       line_stride_in_bytes = - 1920, data_size_in_bytes = - 1920, timestamp = 42\<rparr>"

definition example_video_env :: "NDIlib_video_frame_v2_t \<Rightarrow> video_env" where
  "example_video_env f =
     \<lparr>ve_jni_cache_ok = True, ve_calloc = 0x9000, ve_frame_type = NDIlib_frame_type_video,
       ve_frame = f, ve_byte_buffer_ok = True, ve_new_object_ok = True\<rparr>"

definition example_h264_frame :: NDIlib_video_frame_v2_t where
  "example_h264_frame =
     \<lparr>xres = 1920, yres = 1080, FourCC = 0x34363248, frame_rate_N = 60, frame_rate_D = 1,
       frame_format_type = NDIlib_frame_format_type_progressive, p_data = 0x200000,
       line_stride_in_bytes = 18642, data_size_in_bytes = 18642, timestamp = 43\<rparr>"

text \<open>
  An audio frame of two channels with four samples each, 16 bytes from one channel block
  to the next: channel 0 holds 1, 2, 3, 4 and channel 1 holds 10, 20, 30, 40.
\<close>

definition example_audio_frame :: NDIlib_audio_frame_v2_t where
  "example_audio_frame =
     \<lparr>sample_rate = 48000, no_channels = 2, no_samples = 4, audio_p_data = 0x300000,
       channel_stride_in_bytes = 16, audio_timestamp = 44\<rparr>"

definition example_memory :: "addr \<Rightarrow> rat" where
  "example_memory a =
     (if a = 0x300000 then 1 else if a = 0x300004 then 2
      else if a = 0x300008 then 3 else if a = 0x30000C then 4
      else if a = 0x300010 then 10 else if a = 0x300014 then 20
      else if a = 0x300018 then 30 else if a = 0x30001C then 40
      else 0)"

definition example_audio_env :: "NDIlib_audio_frame_v2_t \<Rightarrow> rat audio_env" where
  "example_audio_env f =
     \<lparr>ae_jni_cache_ok = True, ae_calloc = 0x9100, ae_frame_type = NDIlib_frame_type_audio,
       ae_frame = f, ae_malloc = 0xA000, ae_uninit = (\<lambda>i. 0), ae_memory = example_memory,
       ae_byte_buffer_ok = True, ae_new_object_ok = True\<rparr>"

text \<open>
  A performance answer with the given contraction setting, connection count and video
  counters, on a platform whose out-of-range cast gives the least \<^verbatim>\<open>int\<close>, and two finder
  handles: \<open>0x6000\<close> with a live discovery instance that
  currently sees no source, and \<open>0x6100\<close> whose instance pointer is null.
\<close>

definition example_perf_env :: "bool \<Rightarrow> jint \<Rightarrow> jlong \<Rightarrow> jlong \<Rightarrow> perf_env" where
  "example_perf_env contract connections total_frames dropped_frames =
     \<lparr>pe_jni_cache_ok = True,
       pe_total = \<lparr>video_frames = total_frames, audio_frames = 480, metadata_frames = 2\<rparr>,
       pe_dropped = \<lparr>video_frames = dropped_frames, audio_frames = 0, metadata_frames = 0\<rparr>,
       pe_connections = connections, pe_fp_contract = contract,
       pe_int_cast_out_of_range = - 2147483648, pe_new_object_ok = True\<rparr>"

definition example_finders :: "addr \<rightharpoonup> NdiFinderWrapper" where
  "example_finders = [0x6000 \<mapsto> \<lparr>finder = 0x4000\<rparr>, 0x6100 \<mapsto> \<lparr>finder = 0\<rparr>]"

definition example_finder_env :: finder_env where
  "example_finder_env =
     \<lparr>fe_no_sources = 0, fe_sources = Some [], fe_find_class_ok = True,
       fe_new_array_ok = True, fe_new_string_ok = (\<lambda>i. True)\<rparr>"

text \<open>A discovery answer with two sources, the second with a null name pointer.\<close>

definition example_two_sources_env :: finder_env where
  "example_two_sources_env =
     \<lparr>fe_no_sources = 2, fe_sources = Some [Some ''CAM 1'', None], fe_find_class_ok = True,
       fe_new_array_ok = True, fe_new_string_ok = (\<lambda>i. True)\<rparr>"

section \<open>Theorems\<close>

subsection \<open>Format mappers (C10)\<close>

text \<open>
  C10.  Both mappers are total: each documented input (bandwidth 0, 1, 2, 3; colour
  format 0, 1, 2, 3, 100, 101) is sent to its designated native constant, and every
  other 32-bit input, the negative ones included, is sent to the fixed default:
  the highest bandwidth, respectively the UYVY/BGRA colour format.
\<close>

theorem mappers_total:
  "map_bandwidth 0 = NDIlib_recv_bandwidth_metadata_only \<and>
   map_bandwidth 1 = NDIlib_recv_bandwidth_audio_only \<and>
   map_bandwidth 2 = NDIlib_recv_bandwidth_lowest \<and>
   map_bandwidth 3 = NDIlib_recv_bandwidth_highest \<and>
   (\<forall>b. b \<notin> {0, 1, 2, 3} \<longrightarrow> map_bandwidth b = NDIlib_recv_bandwidth_highest) \<and>
   map_color_format 0 = NDIlib_recv_color_format_BGRX_BGRA \<and>
   map_color_format 1 = NDIlib_recv_color_format_UYVY_BGRA \<and>
   map_color_format 2 = NDIlib_recv_color_format_RGBX_RGBA \<and>
   map_color_format 3 = NDIlib_recv_color_format_UYVY_RGBA \<and>
   map_color_format 100 = NDIlib_recv_color_format_fastest \<and>
   map_color_format 101 = NDIlib_recv_color_format_best \<and>
   (\<forall>c. c \<notin> {0, 1, 2, 3, 100, 101} \<longrightarrow>
        map_color_format c = NDIlib_recv_color_format_UYVY_BGRA)"
  by (simp add: map_bandwidth_def map_color_format_def)

theorem mappers_total_witness:
  "map_bandwidth (- 1) = NDIlib_recv_bandwidth_highest \<and>
   map_bandwidth 4 = NDIlib_recv_bandwidth_highest \<and>
   map_color_format (- 7) = NDIlib_recv_color_format_UYVY_BGRA \<and>
   map_color_format 4 = NDIlib_recv_color_format_UYVY_BGRA \<and>
   map_color_format 102 = NDIlib_recv_color_format_UYVY_BGRA"
proof -
  have b1: "(- 1 :: jint) \<notin> {0, 1, 2, 3}" by simp
  have b2: "(4 :: jint) \<notin> {0, 1, 2, 3}" by simp
  have c1: "(- 7 :: jint) \<notin> {0, 1, 2, 3, 100, 101}" by simp
  have c2: "(4 :: jint) \<notin> {0, 1, 2, 3, 100, 101}" by simp
  have c3: "(102 :: jint) \<notin> {0, 1, 2, 3, 100, 101}" by simp
  from mappers_total b1 b2 c1 c2 c3 show ?thesis by blast
qed

subsection \<open>Library lifecycle (C9)\<close>

text \<open>
  C9.  After an \<^verbatim>\<open>initialize\<close> that reported success, a second \<^verbatim>\<open>initialize\<close> reports
  success again whatever the engine would answer, leaves the whole state as it was
  (so the engine is not initialised a second time) and the initialized query true;
  and \<^verbatim>\<open>destroy\<close> on a library that is not initialized changes nothing.
\<close>

theorem initialize_idempotent_destroy_safe:
  "(initialize ok1 st = (True, st1) \<longrightarrow>
      initialize ok2 st1 = (True, st1) \<and> isInitialized st1 \<and>
      engine_initialize_calls (snd (initialize ok2 st1)) = engine_initialize_calls st1) \<and>
   (\<not> isInitialized st0 \<longrightarrow> destroy st0 = st0)"
  by (auto simp: initialize_def destroy_def isInitialized_def Let_def split: if_splits)

theorem initialize_idempotent_destroy_safe_witness:
  "initialize True fresh_lib = (True, fresh_lib\<lparr>g_initialized := 1, engine_initialize_calls := 1\<rparr>) \<and>
   initialize False (fresh_lib\<lparr>g_initialized := 1, engine_initialize_calls := 1\<rparr>) =
     (True, fresh_lib\<lparr>g_initialized := 1, engine_initialize_calls := 1\<rparr>) \<and>
   isInitialized (fresh_lib\<lparr>g_initialized := 1, engine_initialize_calls := 1\<rparr>) \<and>
   \<not> isInitialized fresh_lib \<and>
   destroy fresh_lib = fresh_lib"
proof -
  have first: "initialize True fresh_lib =
      (True, fresh_lib\<lparr>g_initialized := 1, engine_initialize_calls := 1\<rparr>)"
    by (simp add: initialize_def fresh_lib_def)
  have fresh: "\<not> isInitialized fresh_lib"
    by (simp add: isInitialized_def fresh_lib_def)
  from initialize_idempotent_destroy_safe
         [of True fresh_lib "fresh_lib\<lparr>g_initialized := 1, engine_initialize_calls := 1\<rparr>"
             False fresh_lib]
       first fresh
  show ?thesis by simp
qed

subsection \<open>Arithmetic of the buffer size\<close>

lemma sint_scast_32_64: "sint (scast (x :: 32 word) :: 64 word) = sint x"
  by (rule sint_up_scast) (simp add: is_up)

lemma sint32_bounds: "- 2147483648 \<le> sint (x :: 32 word) \<and> sint x < 2147483648"
  using sint_ge [of x] sint_lt [of x] by simp

lemma sint_neg_scast: "sint (- (scast (x :: 32 word) :: 64 word)) = - sint x"
proof -
  have "sint (- (scast x :: 64 word)) = signed_take_bit 63 (- sint x)"
    by (simp add: sint_word_ariths sint_scast_32_64)
  also have "\<dots> = - sint x"
    using sint32_bounds [of x] by (intro signed_take_bit_int_eq_self) simp_all
  finally show ?thesis .
qed

lemma abs_prod_bound:
  fixes a b :: int
  assumes "\<bar>a\<bar> \<le> 2147483648" "\<bar>b\<bar> \<le> 2147483648"
  shows "\<bar>a * b\<bar> \<le> 4611686018427387904"
proof -
  have "\<bar>a * b\<bar> = \<bar>a\<bar> * \<bar>b\<bar>" by (simp add: abs_mult)
  also have "\<dots> \<le> 2147483648 * 2147483648"
    using assms by (intro mult_mono) simp_all
  finally show ?thesis by simp
qed

lemma sint_mult_64:
  fixes a b :: "64 word"
  assumes "\<bar>sint a\<bar> \<le> 2147483648" "\<bar>sint b\<bar> \<le> 2147483648"
  shows "sint (a * b) = sint a * sint b"
proof -
  have "sint (a * b) = signed_take_bit 63 (sint a * sint b)"
    by (simp add: sint_word_ariths)
  also have "\<dots> = sint a * sint b"
    using abs_prod_bound [OF assms] by (intro signed_take_bit_int_eq_self) simp_all
  finally show ?thesis .
qed

lemma sint_buffer_size:
  "sint (buffer_size f) =
     (if is_compressed f then sint (data_size_in_bytes f)
      else \<bar>sint (line_stride_in_bytes f)\<bar> * sint (yres f))"
proof (cases "is_compressed f")
  case True
  then show ?thesis by (simp add: buffer_size_def sint_scast_32_64)
next
  case False
  let ?s = "line_stride_in_bytes f"
  let ?a = "(if sint (scast ?s :: 64 word) < 0 then - scast ?s else scast ?s) :: 64 word"
  have a: "sint ?a = \<bar>sint ?s\<bar>"
    by (simp add: sint_scast_32_64 sint_neg_scast)
  have ab: "\<bar>sint ?a\<bar> \<le> 2147483648"
    unfolding a using sint32_bounds [of ?s] by linarith
  have yb: "\<bar>sint (scast (yres f) :: 64 word)\<bar> \<le> 2147483648"
    using sint32_bounds [of "yres f"] unfolding sint_scast_32_64 by linarith
  have "sint (?a * scast (yres f)) = sint ?a * sint (scast (yres f) :: 64 word)"
    by (rule sint_mult_64 [OF ab yb])
  with False a show ?thesis
    by (simp add: buffer_size_def Let_def sint_scast_32_64)
qed

subsection \<open>Video capture (C2, C3, C7)\<close>

lemma captureVideo_Some:
  assumes "receiverCaptureVideo e w receiverPtr timeoutMs = Inr (Some r, w')"
  shows "\<exists>wrapper. receivers w receiverPtr = Some wrapper \<and>
           ve_frame_type e = NDIlib_frame_type_video \<and>
           p_data (ve_frame e) \<noteq> 0 \<and> 0 < sint (buffer_size (ve_frame e)) \<and>
           vf_framePtr r = ve_calloc e \<and>
           vf_buffer r = \<lparr>bb_address = p_data (ve_frame e), bb_capacity = buffer_size (ve_frame e)\<rparr> \<and>
           vf_stride r = (if is_compressed (ve_frame e) then 0 else line_stride_in_bytes (ve_frame e)) \<and>
           video_handles w' (ve_calloc e) = Some \<lparr>vh_recv = recv wrapper, vh_frame = ve_frame e\<rparr>"
  using assms
  by (auto simp: receiverCaptureVideo_def Let_def split: if_splits option.splits)

lemma example_capture_succeeds:
  "\<exists>r w'. receiverCaptureVideo (example_video_env example_video_frame)
            (example_world :: 's world) 0x7000 16 = Inr (Some r, w')"
  by (simp add: receiverCaptureVideo_def example_video_env_def example_video_frame_def
      example_world_def buffer_size_def is_compressed_def FOURCC_H264_def FOURCC_HEVC_def Let_def)

lemma example_h264_capture_succeeds:
  "\<exists>r w'. receiverCaptureVideo (example_video_env example_h264_frame)
            (example_world :: 's world) 0x7000 16 = Inr (Some r, w')"
  by (simp add: receiverCaptureVideo_def example_video_env_def example_h264_frame_def
      example_world_def buffer_size_def is_compressed_def FOURCC_H264_def FOURCC_HEVC_def Let_def)

text \<open>
  C2.  A \<^verbatim>\<open>receiverCaptureVideo\<close> call that obtains a video frame whose data pointer is
  null or whose computed buffer size is not positive hands the frame back to the engine
  (\<^verbatim>\<open>NDIlib_recv_free_video_v2\<close> on the very descriptor), frees the handle struct and
  returns null; and whenever a frame object is returned, the handle it names wraps a
  non-null data pointer and the buffer has a positive size.
\<close>

theorem captureVideo_malformed_dropped:
  "(receiverPtr \<noteq> 0 \<and> receivers w receiverPtr = Some wrapper \<and> recv wrapper \<noteq> 0 \<and>
    ve_jni_cache_ok e \<and> ve_calloc e \<noteq> 0 \<and> ve_frame_type e = NDIlib_frame_type_video \<and>
    (p_data (ve_frame e) = 0 \<or> sint (buffer_size (ve_frame e)) \<le> 0) \<longrightarrow>
      (\<exists>w'. receiverCaptureVideo e w receiverPtr timeoutMs = Inr (None, w') \<and>
            engine_calls w' = engine_calls w @
              [Recv_capture_video (recv wrapper) timeoutMs,
               Recv_free_video_v2 (recv wrapper) (ve_frame e)] \<and>
            video_handles w' (ve_calloc e) = None)) \<and>
   (receiverCaptureVideo e w receiverPtr timeoutMs = Inr (Some r, w') \<longrightarrow>
      (\<exists>h. video_handles w' (vf_framePtr r) = Some h \<and>
           p_data (vh_frame h) \<noteq> 0 \<and>
           bb_address (vf_buffer r) = p_data (vh_frame h) \<and>
           0 < sint (bb_capacity (vf_buffer r))))"
proof (intro conjI impI)
  assume a: "receiverPtr \<noteq> 0 \<and> receivers w receiverPtr = Some wrapper \<and> recv wrapper \<noteq> 0 \<and>
    ve_jni_cache_ok e \<and> ve_calloc e \<noteq> 0 \<and> ve_frame_type e = NDIlib_frame_type_video \<and>
    (p_data (ve_frame e) = 0 \<or> sint (buffer_size (ve_frame e)) \<le> 0)"
  then show "\<exists>w'. receiverCaptureVideo e w receiverPtr timeoutMs = Inr (None, w') \<and>
            engine_calls w' = engine_calls w @
              [Recv_capture_video (recv wrapper) timeoutMs,
               Recv_free_video_v2 (recv wrapper) (ve_frame e)] \<and>
            video_handles w' (ve_calloc e) = None"
    by (auto simp: receiverCaptureVideo_def release_video_def Let_def)
next
  assume "receiverCaptureVideo e w receiverPtr timeoutMs = Inr (Some r, w')"
  from captureVideo_Some [OF this]
  show "\<exists>h. video_handles w' (vf_framePtr r) = Some h \<and>
           p_data (vh_frame h) \<noteq> 0 \<and>
           bb_address (vf_buffer r) = p_data (vh_frame h) \<and>
           0 < sint (bb_capacity (vf_buffer r))"
    by auto
qed

theorem captureVideo_malformed_dropped_witness:
  "(\<exists>w'. receiverCaptureVideo (example_video_env (example_video_frame\<lparr>p_data := 0\<rparr>))
            (example_world :: 's world) 0x7000 16 = Inr (None, w') \<and>
         engine_calls w' = [Recv_capture_video 0x5000 16,
                            Recv_free_video_v2 0x5000 (example_video_frame\<lparr>p_data := 0\<rparr>)] \<and>
         video_handles w' 0x9000 = None) \<and>
   (\<exists>w'. receiverCaptureVideo (example_video_env (example_video_frame\<lparr>yres := 0\<rparr>))
            (example_world :: 's world) 0x7000 16 = Inr (None, w') \<and>
         engine_calls w' = [Recv_capture_video 0x5000 16,
                            Recv_free_video_v2 0x5000 (example_video_frame\<lparr>yres := 0\<rparr>)] \<and>
         video_handles w' 0x9000 = None) \<and>
   (\<exists>r w'. receiverCaptureVideo (example_video_env example_video_frame)
            (example_world :: 's world) 0x7000 16 = Inr (Some r, w') \<and>
         (\<exists>h. video_handles w' (vf_framePtr r) = Some h \<and>
              p_data (vh_frame h) \<noteq> 0 \<and>
              bb_address (vf_buffer r) = p_data (vh_frame h) \<and>
              0 < sint (bb_capacity (vf_buffer r))))"
proof (intro conjI)
  let ?w = "example_world :: 's world"
  let ?wr = "\<lparr>recv = 0x5000, surface_window = 0\<rparr>"
  show "\<exists>w'. receiverCaptureVideo (example_video_env (example_video_frame\<lparr>p_data := 0\<rparr>))
            ?w 0x7000 16 = Inr (None, w') \<and>
         engine_calls w' = [Recv_capture_video 0x5000 16,
                            Recv_free_video_v2 0x5000 (example_video_frame\<lparr>p_data := 0\<rparr>)] \<and>
         video_handles w' 0x9000 = None"
    using captureVideo_malformed_dropped
            [of "0x7000" ?w ?wr "example_video_env (example_video_frame\<lparr>p_data := 0\<rparr>)" 16]
    by (simp add: example_video_env_def example_world_def)
  show "\<exists>w'. receiverCaptureVideo (example_video_env (example_video_frame\<lparr>yres := 0\<rparr>))
            ?w 0x7000 16 = Inr (None, w') \<and>
         engine_calls w' = [Recv_capture_video 0x5000 16,
                            Recv_free_video_v2 0x5000 (example_video_frame\<lparr>yres := 0\<rparr>)] \<and>
         video_handles w' 0x9000 = None"
    using captureVideo_malformed_dropped
            [of "0x7000" ?w ?wr "example_video_env (example_video_frame\<lparr>yres := 0\<rparr>)" 16]
    by (simp add: example_video_env_def example_world_def example_video_frame_def
        buffer_size_def is_compressed_def FOURCC_H264_def FOURCC_HEVC_def)
  from example_capture_succeeds [where ?'s = 's] obtain r w'
    where ok: "receiverCaptureVideo (example_video_env example_video_frame) ?w 0x7000 16 =
                 Inr (Some r, w')"
    by blast
  with captureVideo_malformed_dropped
         [of "0x7000" ?w _ "example_video_env example_video_frame" 16 r w']
  show "\<exists>r w'. receiverCaptureVideo (example_video_env example_video_frame) ?w 0x7000 16 =
                 Inr (Some r, w') \<and>
         (\<exists>h. video_handles w' (vf_framePtr r) = Some h \<and>
              p_data (vh_frame h) \<noteq> 0 \<and>
              bb_address (vf_buffer r) = p_data (vh_frame h) \<and>
              0 < sint (bb_capacity (vf_buffer r)))"
    by blast
qed

text \<open>
  C3.  For every successfully captured video frame the exposed buffer starts at the
  engine's data pointer and its size is the engine-reported byte size when the FourCC
  is H264 or HEVC, and \<open>\<bar>line stride\<bar> * yres\<close> otherwise, without wrap-around: a
  stride of \<open>-1920\<close> with 1080 lines gives \<open>1920 * 1080\<close>.
\<close>

theorem captureVideo_buffer_size:
  "receiverCaptureVideo e w receiverPtr timeoutMs = Inr (Some r, w') \<longrightarrow>
     bb_address (vf_buffer r) = p_data (ve_frame e) \<and>
     sint (bb_capacity (vf_buffer r)) =
       (if FourCC (ve_frame e) = FOURCC_H264 \<or> FourCC (ve_frame e) = FOURCC_HEVC
        then sint (data_size_in_bytes (ve_frame e))
        else \<bar>sint (line_stride_in_bytes (ve_frame e))\<bar> * sint (yres (ve_frame e)))"
proof
  assume "receiverCaptureVideo e w receiverPtr timeoutMs = Inr (Some r, w')"
  from captureVideo_Some [OF this]
  have "vf_buffer r = \<lparr>bb_address = p_data (ve_frame e), bb_capacity = buffer_size (ve_frame e)\<rparr>"
    by blast
  then show "bb_address (vf_buffer r) = p_data (ve_frame e) \<and>
     sint (bb_capacity (vf_buffer r)) =
       (if FourCC (ve_frame e) = FOURCC_H264 \<or> FourCC (ve_frame e) = FOURCC_HEVC
        then sint (data_size_in_bytes (ve_frame e))
        else \<bar>sint (line_stride_in_bytes (ve_frame e))\<bar> * sint (yres (ve_frame e)))"
    using sint_buffer_size [of "ve_frame e"] by (simp add: is_compressed_def)
qed

theorem captureVideo_buffer_size_witness:
  "(\<exists>r w'. receiverCaptureVideo (example_video_env example_video_frame)
             (example_world :: 's world) 0x7000 16 = Inr (Some r, w') \<and>
           sint (line_stride_in_bytes example_video_frame) = - 1920 \<and>
           sint (yres example_video_frame) = 1080 \<and>
           sint (bb_capacity (vf_buffer r)) = 1920 * 1080) \<and>
   (\<exists>r w'. receiverCaptureVideo (example_video_env example_h264_frame)
             (example_world :: 's world) 0x7000 16 = Inr (Some r, w') \<and>
           sint (data_size_in_bytes example_h264_frame) = 18642 \<and>
           sint (bb_capacity (vf_buffer r)) = 18642)"
proof (intro conjI)
  let ?w = "example_world :: 's world"
  from example_capture_succeeds [where ?'s = 's] obtain r w'
    where ok: "receiverCaptureVideo (example_video_env example_video_frame) ?w 0x7000 16 =
                 Inr (Some r, w')"
    by blast
  from captureVideo_buffer_size [of "example_video_env example_video_frame" ?w "0x7000" 16 r w'] ok
  have "sint (bb_capacity (vf_buffer r)) = 1920 * 1080"
    by (simp add: example_video_env_def example_video_frame_def FOURCC_H264_def FOURCC_HEVC_def)
  with ok show "\<exists>r w'. receiverCaptureVideo (example_video_env example_video_frame) ?w 0x7000 16 =
                 Inr (Some r, w') \<and>
           sint (line_stride_in_bytes example_video_frame) = - 1920 \<and>
           sint (yres example_video_frame) = 1080 \<and>
           sint (bb_capacity (vf_buffer r)) = 1920 * 1080"
    by (auto simp: example_video_frame_def)
  from example_h264_capture_succeeds [where ?'s = 's] obtain r2 w2
    where ok2: "receiverCaptureVideo (example_video_env example_h264_frame) ?w 0x7000 16 =
                 Inr (Some r2, w2)"
    by blast
  from captureVideo_buffer_size [of "example_video_env example_h264_frame" ?w "0x7000" 16 r2 w2] ok2
  have "sint (bb_capacity (vf_buffer r2)) = 18642"
    by (simp add: example_video_env_def example_h264_frame_def FOURCC_H264_def FOURCC_HEVC_def)
  with ok2 show "\<exists>r w'. receiverCaptureVideo (example_video_env example_h264_frame) ?w 0x7000 16 =
                 Inr (Some r, w') \<and>
           sint (data_size_in_bytes example_h264_frame) = 18642 \<and>
           sint (bb_capacity (vf_buffer r)) = 18642"
    by (auto simp: example_h264_frame_def)
qed

text \<open>
  C7, as claimed: every successful capture reports the engine's line stride.  It fails
  on a compressed frame: the wrapper reports stride 0 for H264 and HEVC, whatever the
  descriptor's stride field holds.
\<close>

theorem captureVideo_stride_counterexample:
  "map_option vf_stride
     (fst (projr (receiverCaptureVideo (example_video_env example_h264_frame)
                    (example_world :: 's world) 0x7000 16))) = Some 0 \<and>
   line_stride_in_bytes (ve_frame (example_video_env example_h264_frame)) = 18642"
  by (simp add: receiverCaptureVideo_def example_video_env_def example_h264_frame_def
      example_world_def buffer_size_def is_compressed_def FOURCC_H264_def FOURCC_HEVC_def Let_def)

text \<open>
  C7, amended.  For every successful capture of an uncompressed frame the reported
  stride is the engine's line stride, sign included; for a frame tagged H264 or HEVC
  the reported stride is 0.
\<close>

theorem captureVideo_stride:
  "receiverCaptureVideo e w receiverPtr timeoutMs = Inr (Some r, w') \<longrightarrow>
     vf_stride r =
       (if FourCC (ve_frame e) = FOURCC_H264 \<or> FourCC (ve_frame e) = FOURCC_HEVC then 0
        else line_stride_in_bytes (ve_frame e))"
proof
  assume "receiverCaptureVideo e w receiverPtr timeoutMs = Inr (Some r, w')"
  from captureVideo_Some [OF this]
  show "vf_stride r =
       (if FourCC (ve_frame e) = FOURCC_H264 \<or> FourCC (ve_frame e) = FOURCC_HEVC then 0
        else line_stride_in_bytes (ve_frame e))"
    by (auto simp: is_compressed_def)
qed

theorem captureVideo_stride_witness:
  "(\<exists>r w'. receiverCaptureVideo (example_video_env example_video_frame)
             (example_world :: 's world) 0x7000 16 = Inr (Some r, w') \<and>
           sint (vf_stride r) = - 1920) \<and>
   (\<exists>r w'. receiverCaptureVideo (example_video_env example_h264_frame)
             (example_world :: 's world) 0x7000 16 = Inr (Some r, w') \<and>
           vf_stride r = 0)"
proof (intro conjI)
  let ?w = "example_world :: 's world"
  from example_capture_succeeds [where ?'s = 's] obtain r w'
    where ok: "receiverCaptureVideo (example_video_env example_video_frame) ?w 0x7000 16 =
                 Inr (Some r, w')"
    by blast
  from captureVideo_stride [of "example_video_env example_video_frame" ?w "0x7000" 16 r w'] ok
  have "sint (vf_stride r) = - 1920"
    by (simp add: example_video_env_def example_video_frame_def FOURCC_H264_def FOURCC_HEVC_def)
  with ok show "\<exists>r w'. receiverCaptureVideo (example_video_env example_video_frame) ?w 0x7000 16 =
                 Inr (Some r, w') \<and> sint (vf_stride r) = - 1920"
    by blast
  from example_h264_capture_succeeds [where ?'s = 's] obtain r2 w2
    where ok2: "receiverCaptureVideo (example_video_env example_h264_frame) ?w 0x7000 16 =
                 Inr (Some r2, w2)"
    by blast
  from captureVideo_stride [of "example_video_env example_h264_frame" ?w "0x7000" 16 r2 w2] ok2
  have "vf_stride r2 = 0"
    by (simp add: example_video_env_def example_h264_frame_def FOURCC_H264_def FOURCC_HEVC_def)
  with ok2 show "\<exists>r w'. receiverCaptureVideo (example_video_env example_h264_frame) ?w 0x7000 16 =
                 Inr (Some r, w') \<and> vf_stride r = 0"
    by blast
qed

subsection \<open>Index and size arithmetic of the audio conversion\<close>

lemma scast_pos_32_64:
  assumes "0 < sint (x :: 32 word)"
  shows "(scast x :: 64 word) = of_nat (nat (sint x))"
proof -
  have "(scast x :: 64 word) = word_of_int (sint x)"
    by (rule scast_eq)
  also have "\<dots> = word_of_int (int (nat (sint x)))"
    using assms by simp
  also have "\<dots> = of_nat (nat (sint x))"
    by (simp only: of_int_of_nat_eq)
  finally show ?thesis .
qed

lemma nat_sint32_less: "nat (sint (x :: 32 word)) < 2147483648"
  using sint32_bounds [of x] by linarith

lemma index_bound:
  fixes s c C :: nat
  assumes "s < 2147483648" "c \<le> C" "C < 2147483648"
  shows "s * C + c < 2 ^ 64"
proof -
  have "s * C \<le> 2147483648 * 2147483648"
    using assms by (intro mult_le_mono) simp_all
  then have "s * C + c < 2147483648 * 2147483648 + 2147483648"
    using assms by linarith
  also have "\<dots> < (2 :: nat) ^ 64" by simp
  finally show ?thesis .
qed

lemma unat_index:
  assumes "0 < sint (ch :: 32 word)" "s < 2147483648" "c \<le> nat (sint ch)"
  shows "unat (of_nat s * scast ch + of_nat c :: 64 word) = s * nat (sint ch) + c"
proof -
  let ?C = "nat (sint ch)"
  have eq: "(of_nat s * scast ch + of_nat c :: 64 word) = of_nat (s * ?C + c)"
    by (simp add: scast_pos_32_64 [OF assms(1)])
  have "s * ?C + c < 2 ^ 64"
    using assms(2,3) nat_sint32_less [of ch] by (intro index_bound) simp_all
  then have "unat (of_nat (s * ?C + c) :: 64 word) = s * ?C + c"
    by (intro of_nat_inverse [OF refl]) simp
  then show ?thesis
    by (simp only: eq)
qed

lemma written_index_in_buffer:
  assumes "0 < sint (no_channels f)"
    and "s < nat (sint (no_samples f))" "c < nat (sint (no_channels f))"
  shows "unat (of_nat s * scast (no_channels f) + of_nat c :: 64 word) <
           nat (sint (no_channels f)) * nat (sint (no_samples f))"
proof -
  let ?C = "nat (sint (no_channels f))" and ?S = "nat (sint (no_samples f))"
  have "s < 2147483648"
    using assms(2) nat_sint32_less [of "no_samples f"] by linarith
  then have "unat (of_nat s * scast (no_channels f) + of_nat c :: 64 word) = s * ?C + c"
    using assms(1,3) by (intro unat_index) simp_all
  also have "\<dots> < Suc s * ?C" using assms(3) by simp
  also have "\<dots> \<le> ?S * ?C" using assms(2) by (intro mult_le_mono1) simp
  finally show ?thesis by (simp add: mult.commute)
qed

lemma unat_bytes:
  assumes "0 < sint (ch :: 32 word)" "0 < sint (sm :: 32 word)"
  shows "unat (scast ch * scast sm * 4 :: 64 word) = 4 * (nat (sint ch) * nat (sint sm))"
proof -
  let ?C = "nat (sint ch)" and ?S = "nat (sint sm)"
  have eq: "(scast ch * scast sm * 4 :: 64 word) = of_nat (4 * (?C * ?S))"
    by (simp add: scast_pos_32_64 [OF assms(1)] scast_pos_32_64 [OF assms(2)])
  have "?C * ?S \<le> 2147483647 * 2147483647"
    using nat_sint32_less [of ch] nat_sint32_less [of sm] by (intro mult_le_mono) simp_all
  then have "4 * (?C * ?S) < 2 ^ 64" by simp
  then have "unat (of_nat (4 * (?C * ?S)) :: 64 word) = 4 * (?C * ?S)"
    by (intro of_nat_inverse [OF refl]) simp
  then show ?thesis by (simp only: eq)
qed

subsection \<open>The two conversion loops\<close>

lemma length_interleave_channels [simp]:
  "length (interleave_channels mem f s c out) = length out"
proof (induction mem f s c out rule: interleave_channels.induct)
  case (1 mem f s c out)
  show ?case
  proof (cases "int c < sint (no_channels f)")
    case True
    with "1.IH" [OF True refl refl] show ?thesis
      by (subst interleave_channels.simps) (simp add: Let_def)
  next
    case False
    then show ?thesis by (subst interleave_channels.simps) simp
  qed
qed

lemma length_interleave_samples [simp]:
  "length (interleave_samples mem f s out) = length out"
proof (induction mem f s out rule: interleave_samples.induct)
  case (1 mem f s out)
  show ?case
  proof (cases "int s < sint (no_samples f)")
    case True
    with "1.IH" [OF True] show ?thesis
      by (subst interleave_samples.simps) simp
  next
    case False
    then show ?thesis by (subst interleave_samples.simps) simp
  qed
qed

lemma interleave_channels_nth:
  assumes "0 < sint (no_channels f)" "s < 2147483648"
    and "s * nat (sint (no_channels f)) + nat (sint (no_channels f)) \<le> length out"
    and "i < length out"
  shows "interleave_channels mem f s c out ! i =
           (if s * nat (sint (no_channels f)) + c \<le> i \<and>
               i < s * nat (sint (no_channels f)) + nat (sint (no_channels f))
            then mem (planar_sample_address f (i - s * nat (sint (no_channels f))) s)
            else out ! i)"
  using assms
proof (induction mem f s c out rule: interleave_channels.induct)
  case (1 mem f s c out)
  let ?C = "nat (sint (no_channels f))"
  show ?case
  proof (cases "int c < sint (no_channels f)")
    case True
    then have cC: "c < ?C" by linarith
    have idx: "unat (of_nat s * scast (no_channels f) + of_nat c :: 64 word) = s * ?C + c"
      using "1.prems"(1,2) cC by (intro unat_index) simp_all
    let ?v = "mem (audio_p_data f + of_nat c * scast (channel_stride_in_bytes f) + 4 * of_nat s)"
    let ?out' = "out[s * ?C + c := ?v]"
    have step: "interleave_channels mem f s c out = interleave_channels mem f s (Suc c) ?out'"
      using True by (subst interleave_channels.simps) (simp add: Let_def idx)
    have ih: "interleave_channels mem f s (Suc c) ?out' ! i =
           (if s * ?C + Suc c \<le> i \<and> i < s * ?C + ?C
            then mem (planar_sample_address f (i - s * ?C) s)
            else ?out' ! i)"
      using "1.IH" [OF True refl refl] "1.prems" by (simp add: idx)
    show ?thesis
    proof (cases "i = s * ?C + c")
      case True
      with cC "1.prems"(4) show ?thesis
        unfolding step ih by (simp add: planar_sample_address_def)
    next
      case False
      then show ?thesis
        unfolding step ih by auto
    qed
  next
    case False
    then have "?C \<le> c" by linarith
    then have out: "\<not> (s * ?C + c \<le> i \<and> i < s * ?C + ?C)" by linarith
    have "interleave_channels mem f s c out = out"
      using False by (subst interleave_channels.simps) simp
    with out show ?thesis by (simp only: if_False)
  qed
qed

lemma interleave_samples_nth:
  assumes "0 < sint (no_channels f)"
    and "nat (sint (no_samples f)) * nat (sint (no_channels f)) \<le> length out"
  shows "(\<forall>i < s * nat (sint (no_channels f)). i < length out \<longrightarrow>
            interleave_samples mem f s out ! i = out ! i) \<and>
         (\<forall>s' c'. s \<le> s' \<and> s' < nat (sint (no_samples f)) \<and> c' < nat (sint (no_channels f)) \<longrightarrow>
            interleave_samples mem f s out ! (s' * nat (sint (no_channels f)) + c') =
              mem (planar_sample_address f c' s'))"
  using assms
proof (induction mem f s out rule: interleave_samples.induct)
  case (1 mem f s out)
  let ?C = "nat (sint (no_channels f))"
  let ?S = "nat (sint (no_samples f))"
  show ?case
  proof (cases "int s < sint (no_samples f)")
    case True
    then have sS: "s < ?S" by linarith
    then have s31: "s < 2147483648" using nat_sint32_less [of "no_samples f"] by linarith
    let ?out' = "interleave_channels mem f s 0 out"
    have step: "interleave_samples mem f s out = interleave_samples mem f (Suc s) ?out'"
      using True by (subst interleave_samples.simps) simp
    have "Suc s * ?C \<le> ?S * ?C"
      using sS by (intro mult_le_mono1) simp
    then have fit: "s * ?C + ?C \<le> length out"
      using "1.prems"(2) by simp
    have inner: "\<And>i. i < length out \<Longrightarrow> ?out' ! i =
           (if s * ?C + 0 \<le> i \<and> i < s * ?C + ?C
            then mem (planar_sample_address f (i - s * ?C) s) else out ! i)"
      by (rule interleave_channels_nth [OF "1.prems"(1) s31 fit])
    have ih: "(\<forall>i < Suc s * ?C. i < length ?out' \<longrightarrow>
            interleave_samples mem f (Suc s) ?out' ! i = ?out' ! i) \<and>
         (\<forall>s' c'. Suc s \<le> s' \<and> s' < ?S \<and> c' < ?C \<longrightarrow>
            interleave_samples mem f (Suc s) ?out' ! (s' * ?C + c') =
              mem (planar_sample_address f c' s'))"
      using "1.IH" [OF True] "1.prems" by simp
    show ?thesis
    proof (intro conjI allI impI)
      fix i assume "i < s * ?C" "i < length out"
      then show "interleave_samples mem f s out ! i = out ! i"
        unfolding step using ih inner [of i] by simp
    next
      fix s' c' assume a: "s \<le> s' \<and> s' < ?S \<and> c' < ?C"
      show "interleave_samples mem f s out ! (s' * ?C + c') = mem (planar_sample_address f c' s')"
      proof (cases "s' = s")
        case True
        have lt: "s * ?C + c' < Suc s * ?C" using a by simp
        have len: "s * ?C + c' < length out" using a fit by linarith
        have "interleave_samples mem f (Suc s) ?out' ! (s * ?C + c') = ?out' ! (s * ?C + c')"
          using ih lt len by simp
        also have "\<dots> = mem (planar_sample_address f c' s)"
          using inner [OF len] a by simp
        finally show ?thesis unfolding step True .
      next
        case False
        with a have "Suc s \<le> s' \<and> s' < ?S \<and> c' < ?C" by simp
        with ih show ?thesis unfolding step by blast
      qed
    qed
  next
    case False
    then have "interleave_samples mem f s out = out"
      by (subst interleave_samples.simps) simp
    moreover from False have "\<not> (\<exists>s'. s \<le> s' \<and> s' < ?S)" by linarith
    ultimately show ?thesis by auto
  qed
qed

subsection \<open>Audio capture (C6, C4, C1)\<close>

lemma captureAudio_Some:
  assumes "receiverCaptureAudio e w receiverPtr timeoutMs = Inr (Some r, w')"
  shows "\<exists>wrapper. receiverPtr \<noteq> 0 \<and> receivers w receiverPtr = Some wrapper \<and>
           ae_calloc e \<noteq> 0 \<and> ae_malloc e \<noteq> 0 \<and>
           ae_frame_type e = NDIlib_frame_type_audio \<and>
           audio_p_data (ae_frame e) \<noteq> 0 \<and> 0 < sint (sample_rate (ae_frame e)) \<and>
           0 < sint (no_channels (ae_frame e)) \<and> 0 < sint (no_samples (ae_frame e)) \<and>
           r = \<lparr>af_framePtr = ae_calloc e,
                 af_sampleRate = sample_rate (ae_frame e),
                 af_channels = no_channels (ae_frame e),
                 af_samplesPerChannel = no_samples (ae_frame e),
                 af_timestamp = audio_timestamp (ae_frame e),
                 af_buffer = \<lparr>bb_address = ae_malloc e,
                   bb_capacity = scast (no_channels (ae_frame e)) * scast (no_samples (ae_frame e)) * 4\<rparr>\<rparr> \<and>
           receivers w' = receivers w \<and>
           video_handles w' = video_handles w \<and>
           engine_calls w' = engine_calls w @ [Recv_capture_audio (recv wrapper) timeoutMs] \<and>
           audio_handles w' = (audio_handles w)(ae_calloc e \<mapsto>
              \<lparr>ah_recv = recv wrapper, ah_frame = ae_frame e, interleaved_data = ae_malloc e,
                interleaved_bytes =
                  scast (no_channels (ae_frame e)) * scast (no_samples (ae_frame e)) * 4\<rparr>) \<and>
           float_buffers w' = (float_buffers w)(ae_malloc e \<mapsto>
              interleave_samples (ae_memory e) (ae_frame e) 0
                (map (ae_uninit e)
                   [0 ..< unat (scast (no_channels (ae_frame e)) *
                                scast (no_samples (ae_frame e)) * 4 :: 64 word) div 4]))"
  using assms
  by (auto simp: receiverCaptureAudio_def Let_def split: if_splits option.splits)

lemma example_audio_capture_succeeds:
  "\<exists>r w'. receiverCaptureAudio (example_audio_env example_audio_frame)
            example_world 0x7000 16 = Inr (Some r, w')"
  by (simp add: receiverCaptureAudio_def example_audio_env_def example_audio_frame_def
      example_world_def Let_def)

lemma list8:
  assumes "length xs = 8"
  shows "xs = [xs ! 0, xs ! 1, xs ! 2, xs ! 3, xs ! 4, xs ! 5, xs ! 6, xs ! 7]"
proof (rule nth_equalityI)
  show "length xs = length [xs ! 0, xs ! 1, xs ! 2, xs ! 3, xs ! 4, xs ! 5, xs ! 6, xs ! 7]"
    using assms by simp
next
  fix i assume "i < length xs"
  then have "i < 8" using assms by simp
  then have "i = 0 \<or> i = 1 \<or> i = 2 \<or> i = 3 \<or> i = 4 \<or> i = 5 \<or> i = 6 \<or> i = 7"
    by linarith
  then show "xs ! i = [xs ! 0, xs ! 1, xs ! 2, xs ! 3, xs ! 4, xs ! 5, xs ! 6, xs ! 7] ! i"
    by (elim disjE) simp_all
qed

text \<open>
  C6.  A \<^verbatim>\<open>receiverCaptureAudio\<close> call that obtains an audio frame whose sample rate,
  channel count or samples-per-channel is not strictly positive, or whose data pointer
  is null, hands the frame back to the engine, frees the handle struct and returns null;
  no interleaved buffer is allocated and the handle does not survive.
\<close>

theorem captureAudio_invalid_dropped:
  "receiverPtr \<noteq> 0 \<and> receivers w receiverPtr = Some wrapper \<and> recv wrapper \<noteq> 0 \<and>
   ae_jni_cache_ok e \<and> ae_calloc e \<noteq> 0 \<and> ae_frame_type e = NDIlib_frame_type_audio \<and>
   (sint (sample_rate (ae_frame e)) \<le> 0 \<or> sint (no_channels (ae_frame e)) \<le> 0 \<or>
    sint (no_samples (ae_frame e)) \<le> 0 \<or> audio_p_data (ae_frame e) = 0) \<longrightarrow>
     (\<exists>w'. receiverCaptureAudio e w receiverPtr timeoutMs = Inr (None, w') \<and>
           engine_calls w' = engine_calls w @
             [Recv_capture_audio (recv wrapper) timeoutMs,
              Recv_free_audio_v2 (recv wrapper) (ae_frame e)] \<and>
           audio_handles w' (ae_calloc e) = None \<and>
           float_buffers w' = float_buffers w)"
  by (auto simp: receiverCaptureAudio_def release_audio_def Let_def)

theorem captureAudio_invalid_dropped_witness:
  "(\<exists>w'. receiverCaptureAudio (example_audio_env (example_audio_frame\<lparr>sample_rate := 0\<rparr>))
            example_world 0x7000 16 = Inr (None, w') \<and>
         engine_calls w' = [Recv_capture_audio 0x5000 16,
            Recv_free_audio_v2 0x5000 (example_audio_frame\<lparr>sample_rate := 0\<rparr>)] \<and>
         audio_handles w' 0x9100 = None \<and> float_buffers w' = Map.empty) \<and>
   (\<exists>w'. receiverCaptureAudio (example_audio_env (example_audio_frame\<lparr>no_channels := - 2\<rparr>))
            example_world 0x7000 16 = Inr (None, w') \<and>
         engine_calls w' = [Recv_capture_audio 0x5000 16,
            Recv_free_audio_v2 0x5000 (example_audio_frame\<lparr>no_channels := - 2\<rparr>)] \<and>
         audio_handles w' 0x9100 = None \<and> float_buffers w' = Map.empty) \<and>
   (\<exists>w'. receiverCaptureAudio (example_audio_env (example_audio_frame\<lparr>no_samples := 0\<rparr>))
            example_world 0x7000 16 = Inr (None, w') \<and>
         engine_calls w' = [Recv_capture_audio 0x5000 16,
            Recv_free_audio_v2 0x5000 (example_audio_frame\<lparr>no_samples := 0\<rparr>)] \<and>
         audio_handles w' 0x9100 = None \<and> float_buffers w' = Map.empty) \<and>
   (\<exists>w'. receiverCaptureAudio (example_audio_env (example_audio_frame\<lparr>audio_p_data := 0\<rparr>))
            example_world 0x7000 16 = Inr (None, w') \<and>
         engine_calls w' = [Recv_capture_audio 0x5000 16,
            Recv_free_audio_v2 0x5000 (example_audio_frame\<lparr>audio_p_data := 0\<rparr>)] \<and>
         audio_handles w' 0x9100 = None \<and> float_buffers w' = Map.empty)"
proof -
  let ?wr = "\<lparr>recv = 0x5000, surface_window = 0\<rparr>"
  note inst = captureAudio_invalid_dropped [of "0x7000" example_world ?wr _ 16]
  show ?thesis
    using inst [of "example_audio_env (example_audio_frame\<lparr>sample_rate := 0\<rparr>)"]
          inst [of "example_audio_env (example_audio_frame\<lparr>no_channels := - 2\<rparr>)"]
          inst [of "example_audio_env (example_audio_frame\<lparr>no_samples := 0\<rparr>)"]
          inst [of "example_audio_env (example_audio_frame\<lparr>audio_p_data := 0\<rparr>)"]
    by (simp add: example_audio_env_def example_world_def example_audio_frame_def)
qed

text \<open>
  C4.  For every successful \<^verbatim>\<open>receiverCaptureAudio\<close> (channels and samples per channel
  are then positive) the interleaved buffer holds channels times samples-per-channel
  floats, its byte capacity is four times that, and entry \<open>s * channels + c\<close> is the
  \<open>s\<close>-th sample of planar channel \<open>c\<close>.  Channel 0 = [1, 2, 3, 4] and channel
  1 = [10, 20, 30, 40] give [1, 10, 2, 20, 3, 30, 4, 40].
\<close>

theorem captureAudio_interleaved:
  "receiverCaptureAudio e w receiverPtr timeoutMs = Inr (Some r, w') \<longrightarrow>
     0 < sint (af_channels r) \<and> 0 < sint (af_samplesPerChannel r) \<and>
     af_channels r = no_channels (ae_frame e) \<and>
     af_samplesPerChannel r = no_samples (ae_frame e) \<and>
     (\<exists>out. float_buffers w' (bb_address (af_buffer r)) = Some out \<and>
        length out = nat (sint (af_channels r)) * nat (sint (af_samplesPerChannel r)) \<and>
        unat (bb_capacity (af_buffer r)) = 4 * length out \<and>
        (\<forall>s c. s < nat (sint (af_samplesPerChannel r)) \<and> c < nat (sint (af_channels r)) \<longrightarrow>
           out ! (s * nat (sint (af_channels r)) + c) =
             ae_memory e (planar_sample_address (ae_frame e) c s)))"
proof
  assume "receiverCaptureAudio e w receiverPtr timeoutMs = Inr (Some r, w')"
  from captureAudio_Some [OF this] obtain wrapper where
    ch: "0 < sint (no_channels (ae_frame e))" and sm: "0 < sint (no_samples (ae_frame e))" and
    r: "r = \<lparr>af_framePtr = ae_calloc e,
                 af_sampleRate = sample_rate (ae_frame e),
                 af_channels = no_channels (ae_frame e),
                 af_samplesPerChannel = no_samples (ae_frame e),
                 af_timestamp = audio_timestamp (ae_frame e),
                 af_buffer = \<lparr>bb_address = ae_malloc e,
                   bb_capacity = scast (no_channels (ae_frame e)) * scast (no_samples (ae_frame e)) * 4\<rparr>\<rparr>" and
    fb: "float_buffers w' = (float_buffers w)(ae_malloc e \<mapsto>
              interleave_samples (ae_memory e) (ae_frame e) 0
                (map (ae_uninit e)
                   [0 ..< unat (scast (no_channels (ae_frame e)) *
                                scast (no_samples (ae_frame e)) * 4 :: 64 word) div 4]))"
    by blast
  let ?f = "ae_frame e"
  let ?C = "nat (sint (no_channels ?f))" and ?S = "nat (sint (no_samples ?f))"
  define bytes :: "64 word" where "bytes = scast (no_channels ?f) * scast (no_samples ?f) * 4"
  define init where "init = map (ae_uninit e) [0 ..< unat bytes div 4]"
  define out where "out = interleave_samples (ae_memory e) ?f 0 init"
  have bytes: "unat bytes = 4 * (?C * ?S)"
    unfolding bytes_def by (rule unat_bytes [OF ch sm])
  have len: "length init = ?C * ?S"
    by (simp add: init_def bytes)
  have fit: "?S * ?C \<le> length init"
    by (simp add: len mult.commute)
  have len_out: "length out = ?C * ?S"
    by (simp add: out_def len)
  have nth: "\<forall>s' c'. 0 \<le> s' \<and> s' < ?S \<and> c' < ?C \<longrightarrow>
            out ! (s' * ?C + c') = ae_memory e (planar_sample_address ?f c' s')"
    unfolding out_def using interleave_samples_nth [OF ch fit, of 0 "ae_memory e"] by blast
  have r': "af_channels r = no_channels ?f" "af_samplesPerChannel r = no_samples ?f"
    "bb_address (af_buffer r) = ae_malloc e" "bb_capacity (af_buffer r) = bytes"
    by (simp_all add: r bytes_def)
  have fb': "float_buffers w' (ae_malloc e) = Some out"
    unfolding fb out_def init_def bytes_def by simp
  have "float_buffers w' (bb_address (af_buffer r)) = Some out"
    by (simp only: r' fb')
  moreover have "length out = nat (sint (af_channels r)) * nat (sint (af_samplesPerChannel r))"
    by (simp only: r' len_out)
  moreover have "unat (bb_capacity (af_buffer r)) = 4 * length out"
    by (simp only: r' len_out bytes)
  moreover have "\<forall>s c. s < nat (sint (af_samplesPerChannel r)) \<and> c < nat (sint (af_channels r)) \<longrightarrow>
           out ! (s * nat (sint (af_channels r)) + c) =
             ae_memory e (planar_sample_address (ae_frame e) c s)"
    using nth by (simp only: r') simp
  ultimately show "0 < sint (af_channels r) \<and> 0 < sint (af_samplesPerChannel r) \<and>
     af_channels r = no_channels (ae_frame e) \<and>
     af_samplesPerChannel r = no_samples (ae_frame e) \<and>
     (\<exists>out. float_buffers w' (bb_address (af_buffer r)) = Some out \<and>
        length out = nat (sint (af_channels r)) * nat (sint (af_samplesPerChannel r)) \<and>
        unat (bb_capacity (af_buffer r)) = 4 * length out \<and>
        (\<forall>s c. s < nat (sint (af_samplesPerChannel r)) \<and> c < nat (sint (af_channels r)) \<longrightarrow>
           out ! (s * nat (sint (af_channels r)) + c) =
             ae_memory e (planar_sample_address (ae_frame e) c s)))"
    using ch sm r'(1,2) by auto
qed

theorem captureAudio_interleaved_witness:
  "\<exists>r w'. receiverCaptureAudio (example_audio_env example_audio_frame)
            example_world 0x7000 16 = Inr (Some r, w') \<and>
          sint (af_channels r) = 2 \<and> sint (af_samplesPerChannel r) = 4 \<and>
          unat (bb_capacity (af_buffer r)) = 32 \<and>
          float_buffers w' (bb_address (af_buffer r)) = Some [1, 10, 2, 20, 3, 30, 4, 40]"
proof -
  let ?e = "example_audio_env example_audio_frame"
  from example_audio_capture_succeeds obtain r w'
    where ok: "receiverCaptureAudio ?e example_world 0x7000 16 = Inr (Some r, w')"
    by blast
  from captureAudio_interleaved [of ?e example_world "0x7000" 16 r w'] ok
  obtain out where
    ch: "sint (af_channels r) = 2" and sm: "sint (af_samplesPerChannel r) = 4" and
    fb: "float_buffers w' (bb_address (af_buffer r)) = Some out" and
    len: "length out = nat (sint (af_channels r)) * nat (sint (af_samplesPerChannel r))" and
    cap: "unat (bb_capacity (af_buffer r)) = 4 * length out" and
    nth: "\<forall>s c. s < nat (sint (af_samplesPerChannel r)) \<and> c < nat (sint (af_channels r)) \<longrightarrow>
           out ! (s * nat (sint (af_channels r)) + c) =
             ae_memory ?e (planar_sample_address (ae_frame ?e) c s)"
    by (auto simp: example_audio_env_def example_audio_frame_def)
  have len8: "length out = 8"
    using len by (simp add: ch sm)
  have at: "s < 4 \<Longrightarrow> c < 2 \<Longrightarrow>
      out ! (s * 2 + c) = example_memory (planar_sample_address example_audio_frame c s)" for s c
    using nth [rule_format, of s c] by (simp add: ch sm example_audio_env_def)
  have "out ! 0 = 1" "out ! 1 = 10" "out ! 2 = 2" "out ! 3 = 20"
       "out ! 4 = 3" "out ! 5 = 30" "out ! 6 = 4" "out ! 7 = 40"
    using at [of 0 0] at [of 0 1] at [of 1 0] at [of 1 1]
          at [of 2 0] at [of 2 1] at [of 3 0] at [of 3 1]
    by (simp_all add: planar_sample_address_def example_memory_def example_audio_frame_def)
  with list8 [OF len8] have "out = [1, 10, 2, 20, 3, 30, 4, 40]"
    by simp
  with ok ch sm fb cap len8 show ?thesis
    by auto
qed

text \<open>
  C1, as claimed: a successful \<^verbatim>\<open>receiverCaptureAudio\<close> releases the planar frame
  before it returns, and the release in \<^verbatim>\<open>receiverFreeAudio\<close> does nothing to the sample
  memory.  On the example the only engine call of the successful capture is the capture
  itself; the one release of the frame is made by \<^verbatim>\<open>receiverFreeAudio\<close>, on the
  descriptor that still carries the engine's data pointer.
\<close>

theorem captureAudio_release_counterexample:
  "map_option af_framePtr
     (fst (projr (receiverCaptureAudio (example_audio_env example_audio_frame)
                    example_world 0x7000 16))) = Some 0x9100 \<and>
   engine_calls
     (snd (projr (receiverCaptureAudio (example_audio_env example_audio_frame)
                    example_world 0x7000 16))) = [Recv_capture_audio 0x5000 16] \<and>
   engine_calls
     (projr (receiverFreeAudio
        (snd (projr (receiverCaptureAudio (example_audio_env example_audio_frame)
                       example_world 0x7000 16))) 0x7000 0x9100)) =
     [Recv_capture_audio 0x5000 16, Recv_free_audio_v2 0x5000 example_audio_frame] \<and>
   audio_p_data example_audio_frame = 0x300000"
  by (simp add: receiverCaptureAudio_def receiverFreeAudio_def example_audio_env_def
      example_audio_frame_def example_world_def Let_def)

text \<open>
  C1, amended.  A successful \<^verbatim>\<open>receiverCaptureAudio\<close> makes no release call: the
  planar frame stays on loan, its descriptor (with the non-null data pointer) kept in
  the handle.  The following \<^verbatim>\<open>receiverFreeAudio\<close> on that handle, with the receiver
  handle or with zero, releases the planar frame to the engine with exactly one
  \<^verbatim>\<open>NDIlib_recv_free_audio_v2\<close> call on that descriptor and frees the interleaved
  buffer and the handle struct, nothing else.
\<close>

theorem captureAudio_holds_frame_until_freeAudio:
  "receiverCaptureAudio e w receiverPtr timeoutMs = Inr (Some r, w') \<longrightarrow>
     (\<exists>wrapper. receivers w receiverPtr = Some wrapper \<and>
        engine_calls w' = engine_calls w @ [Recv_capture_audio (recv wrapper) timeoutMs] \<and>
        audio_p_data (ae_frame e) \<noteq> 0 \<and>
        (\<exists>h. audio_handles w' (af_framePtr r) = Some h \<and>
             ah_recv h = recv wrapper \<and> ah_frame h = ae_frame e \<and>
             interleaved_data h = bb_address (af_buffer r)) \<and>
        float_buffers w' (bb_address (af_buffer r)) \<noteq> None \<and>
        (\<forall>rp. rp = 0 \<or> rp = receiverPtr \<longrightarrow>
           (\<exists>w''. receiverFreeAudio w' rp (af_framePtr r) = Inr w'' \<and>
              engine_calls w'' =
                engine_calls w' @ [Recv_free_audio_v2 (recv wrapper) (ae_frame e)] \<and>
              audio_handles w'' = (audio_handles w')(af_framePtr r := None) \<and>
              float_buffers w'' = (float_buffers w')(bb_address (af_buffer r) := None) \<and>
              receivers w'' = receivers w' \<and> video_handles w'' = video_handles w')))"
proof
  assume "receiverCaptureAudio e w receiverPtr timeoutMs = Inr (Some r, w')"
  from captureAudio_Some [OF this] obtain wrapper where
    p: "receiverPtr \<noteq> 0" "ae_calloc e \<noteq> 0" and
    wr: "receivers w receiverPtr = Some wrapper" and
    pd: "audio_p_data (ae_frame e) \<noteq> 0" and
    r: "af_framePtr r = ae_calloc e" "bb_address (af_buffer r) = ae_malloc e" and
    rc: "receivers w' = receivers w" and
    ec: "engine_calls w' = engine_calls w @ [Recv_capture_audio (recv wrapper) timeoutMs]" and
    ah: "audio_handles w' (ae_calloc e) = Some
              \<lparr>ah_recv = recv wrapper, ah_frame = ae_frame e, interleaved_data = ae_malloc e,
                interleaved_bytes =
                  scast (no_channels (ae_frame e)) * scast (no_samples (ae_frame e)) * 4\<rparr>" and
    fb: "float_buffers w' (ae_malloc e) \<noteq> None"
    by auto
  have free: "\<exists>w''. receiverFreeAudio w' rp (af_framePtr r) = Inr w'' \<and>
              engine_calls w'' =
                engine_calls w' @ [Recv_free_audio_v2 (recv wrapper) (ae_frame e)] \<and>
              audio_handles w'' = (audio_handles w')(af_framePtr r := None) \<and>
              float_buffers w'' = (float_buffers w')(bb_address (af_buffer r) := None) \<and>
              receivers w'' = receivers w' \<and> video_handles w'' = video_handles w'"
    if "rp = 0 \<or> rp = receiverPtr" for rp
    using that p wr rc ah by (auto simp: receiverFreeAudio_def r)
  show "\<exists>wrapper. receivers w receiverPtr = Some wrapper \<and>
        engine_calls w' = engine_calls w @ [Recv_capture_audio (recv wrapper) timeoutMs] \<and>
        audio_p_data (ae_frame e) \<noteq> 0 \<and>
        (\<exists>h. audio_handles w' (af_framePtr r) = Some h \<and>
             ah_recv h = recv wrapper \<and> ah_frame h = ae_frame e \<and>
             interleaved_data h = bb_address (af_buffer r)) \<and>
        float_buffers w' (bb_address (af_buffer r)) \<noteq> None \<and>
        (\<forall>rp. rp = 0 \<or> rp = receiverPtr \<longrightarrow>
           (\<exists>w''. receiverFreeAudio w' rp (af_framePtr r) = Inr w'' \<and>
              engine_calls w'' =
                engine_calls w' @ [Recv_free_audio_v2 (recv wrapper) (ae_frame e)] \<and>
              audio_handles w'' = (audio_handles w')(af_framePtr r := None) \<and>
              float_buffers w'' = (float_buffers w')(bb_address (af_buffer r) := None) \<and>
              receivers w'' = receivers w' \<and> video_handles w'' = video_handles w'))"
  proof (intro exI [of _ wrapper] conjI allI impI)
    show "\<exists>h. audio_handles w' (af_framePtr r) = Some h \<and>
             ah_recv h = recv wrapper \<and> ah_frame h = ae_frame e \<and>
             interleaved_data h = bb_address (af_buffer r)"
      by (simp add: r ah)
  qed (use wr ec pd fb r free in simp_all)
qed

theorem captureAudio_holds_frame_until_freeAudio_witness:
  "\<exists>r w' w''. receiverCaptureAudio (example_audio_env example_audio_frame)
            example_world 0x7000 16 = Inr (Some r, w') \<and>
      engine_calls w' = [Recv_capture_audio 0x5000 16] \<and>
      map_option ah_frame (audio_handles w' (af_framePtr r)) = Some example_audio_frame \<and>
      receiverFreeAudio w' 0x7000 (af_framePtr r) = Inr w'' \<and>
      engine_calls w'' =
        [Recv_capture_audio 0x5000 16, Recv_free_audio_v2 0x5000 example_audio_frame] \<and>
      audio_handles w'' (af_framePtr r) = None \<and>
      float_buffers w'' (bb_address (af_buffer r)) = None"
proof -
  let ?e = "example_audio_env example_audio_frame"
  from example_audio_capture_succeeds obtain r w'
    where ok: "receiverCaptureAudio ?e example_world 0x7000 16 = Inr (Some r, w')"
    by blast
  from captureAudio_holds_frame_until_freeAudio [of ?e example_world "0x7000" 16 r w'] ok
  obtain wrapper h where
    wr: "receivers (example_world :: rat world) 0x7000 = Some wrapper" and
    ec: "engine_calls w' = engine_calls (example_world :: rat world) @
           [Recv_capture_audio (recv wrapper) 16]" and
    h: "audio_handles w' (af_framePtr r) = Some h" "ah_frame h = ae_frame ?e" and
    free: "\<forall>rp. rp = 0 \<or> rp = 0x7000 \<longrightarrow>
           (\<exists>w''. receiverFreeAudio w' rp (af_framePtr r) = Inr w'' \<and>
              engine_calls w'' =
                engine_calls w' @ [Recv_free_audio_v2 (recv wrapper) (ae_frame ?e)] \<and>
              audio_handles w'' = (audio_handles w')(af_framePtr r := None) \<and>
              float_buffers w'' = (float_buffers w')(bb_address (af_buffer r) := None) \<and>
              receivers w'' = receivers w' \<and> video_handles w'' = video_handles w')"
    by blast
  from free obtain w'' where
    f: "receiverFreeAudio w' 0x7000 (af_framePtr r) = Inr w''"
       "engine_calls w'' = engine_calls w' @ [Recv_free_audio_v2 (recv wrapper) (ae_frame ?e)]"
       "audio_handles w'' = (audio_handles w')(af_framePtr r := None)"
       "float_buffers w'' = (float_buffers w')(bb_address (af_buffer r) := None)"
    by blast
  from wr have rw: "recv wrapper = 0x5000"
    by (auto simp: example_world_def)
  have "engine_calls w' = [Recv_capture_audio 0x5000 16]"
    using ec rw by (simp add: example_world_def)
  moreover have "map_option ah_frame (audio_handles w' (af_framePtr r)) = Some example_audio_frame"
    using h by (simp add: example_audio_env_def)
  moreover have "engine_calls w'' =
        [Recv_capture_audio 0x5000 16, Recv_free_audio_v2 0x5000 example_audio_frame]"
    using f(2) ec rw by (simp add: example_world_def example_audio_env_def)
  moreover have "audio_handles w'' (af_framePtr r) = None"
    "float_buffers w'' (bb_address (af_buffer r)) = None"
    using f(3,4) by simp_all
  ultimately show ?thesis
    using ok f(1) by blast
qed

subsection \<open>The rounding model: exponent and relative error\<close>

text \<open>
  The rounding of the model picks the right binade and is within half a unit in the
  last place, that is, within a relative error of \<open>2 ^ -53\<close>.
\<close>

lemma pow2_pos: "0 < pow2 k"
  by (simp add: pow2_def)

lemma pow2_Suc: "pow2 (k + 1) = 2 * pow2 k"
proof -
  consider "0 \<le> k" | "k = - 1" | "k < - 1" by linarith
  then show ?thesis
  proof cases
    case 1
    then show ?thesis by (simp add: pow2_def nat_add_distrib)
  next
    case 2
    then show ?thesis by (simp add: pow2_def)
  next
    case 3
    then have "nat (- k) = Suc (nat (- k - 1))" by simp
    with 3 show ?thesis by (simp add: pow2_def)
  qed
qed

lemma pow2_add: "pow2 (a + b) = pow2 a * pow2 b"
proof -
  have "pow2 k = 2 powi k" for k
    by (simp add: pow2_def power_int_def inverse_eq_divide power_one_over)
  then show ?thesis
    by (simp add: power_int_add)
qed

lemma round_ties_even_error: "\<bar>of_int (round_ties_even y) - y\<bar> \<le> 1 / 2"
proof -
  have "of_int \<lfloor>y\<rfloor> \<le> y" "y < of_int \<lfloor>y\<rfloor> + 1"
    by linarith+
  then show ?thesis
    by (auto simp: round_ties_even_def Let_def abs_le_iff)
qed

lemma binade_bounds:
  assumes "x \<noteq> 0"
  shows "pow2 (binade x) \<le> \<bar>x\<bar> \<and> \<bar>x\<bar> < pow2 (binade x + 1)"
proof (cases "1 \<le> \<bar>x\<bar>")
  case True
  let ?n = "\<lfloor>\<bar>x\<bar>\<rfloor>"
  have n: "1 \<le> ?n" using True by linarith
  then have b: "0 < bitlen ?n"
    using bitlen_eq_zero_iff [of ?n] bitlen_nonneg [of ?n] by linarith
  from n bitlen_bounds [of ?n]
  have lo: "2 ^ nat (bitlen ?n - 1) \<le> ?n" and hi: "?n < 2 ^ nat (bitlen ?n)"
    by simp_all
  have e: "binade x = bitlen ?n - 1"
    using True by (simp add: binade_def)
  have "pow2 (binade x) = of_int (2 ^ nat (bitlen ?n - 1))"
    using b by (simp add: e pow2_def)
  also have "\<dots> \<le> of_int ?n"
    using lo by (simp only: of_int_le_iff)
  also have "\<dots> \<le> \<bar>x\<bar>" by linarith
  finally have 1: "pow2 (binade x) \<le> \<bar>x\<bar>" .
  have "?n + 1 \<le> 2 ^ nat (bitlen ?n)" using hi by linarith
  then have "(of_int (?n + 1) :: rat) \<le> of_int (2 ^ nat (bitlen ?n))"
    by (simp only: of_int_le_iff)
  moreover have "\<bar>x\<bar> < of_int (?n + 1)" by linarith
  ultimately have "\<bar>x\<bar> < of_int (2 ^ nat (bitlen ?n))" by linarith
  also have "\<dots> = pow2 (binade x + 1)"
    using b by (simp add: e pow2_def)
  finally show ?thesis using 1 by simp
next
  case False
  then have x1: "\<bar>x\<bar> < 1" by simp
  have x0: "0 < \<bar>x\<bar>" using assms by simp
  define y where "y = 1 / \<bar>x\<bar>"
  define m where "m = \<lceil>y\<rceil> - 1"
  define b where "b = bitlen m"
  have y1: "1 < y" using x0 x1 by (simp add: y_def)
  have ym: "of_int m < y" "y \<le> of_int m + 1"
    unfolding m_def by linarith+
  have m: "1 \<le> m" using y1 ym by linarith
  then have b: "0 < b"
    using bitlen_eq_zero_iff [of m] bitlen_nonneg [of m] unfolding b_def by linarith
  from m bitlen_bounds [of m]
  have lo: "2 ^ nat (b - 1) \<le> m" and hi: "m < 2 ^ nat b"
    unfolding b_def by simp_all
  have e: "binade x = - b"
    using False by (simp add: binade_def b_def m_def y_def)
  have "m + 1 \<le> 2 ^ nat b" using hi by linarith
  then have "(of_int (m + 1) :: rat) \<le> of_int (2 ^ nat b)"
    by (simp only: of_int_le_iff)
  then have "of_int m + 1 \<le> (2 ^ nat b :: rat)" by simp
  then have "y \<le> 2 ^ nat b" using ym by linarith
  then have "1 \<le> 2 ^ nat b * \<bar>x\<bar>"
    using x0 by (simp add: y_def field_simps)
  then have 1: "pow2 (binade x) \<le> \<bar>x\<bar>"
    using b by (simp add: e pow2_def field_simps)
  have "(of_int (2 ^ nat (b - 1)) :: rat) \<le> of_int m"
    using lo by (simp only: of_int_le_iff)
  then have "(2 ^ nat (b - 1) :: rat) \<le> of_int m" by simp
  then have "2 ^ nat (b - 1) < y" using ym by linarith
  then have lt: "2 ^ nat (b - 1) * \<bar>x\<bar> < 1"
    using x0 by (simp add: y_def field_simps)
  have "pow2 (binade x + 1) = 1 / 2 ^ nat (b - 1)"
  proof (cases "b = 1")
    case True
    then show ?thesis by (simp add: e pow2_def)
  next
    case False
    with b have "1 < b" by linarith
    then show ?thesis by (simp add: e pow2_def)
  qed
  moreover have "\<bar>x\<bar> < 1 / 2 ^ nat (b - 1)"
    using lt by (simp add: pos_less_divide_eq mult.commute)
  ultimately have "\<bar>x\<bar> < pow2 (binade x + 1)"
    by (simp only:)
  with 1 show ?thesis by simp
qed

lemma to_double_error: "\<bar>to_double x - x\<bar> \<le> \<bar>x\<bar> / 2 ^ 53"
proof (cases "x = 0")
  case True
  then show ?thesis by (simp add: to_double_def)
next
  case False
  let ?u = "pow2 (binade x - 52)"
  have u: "0 < ?u" by (rule pow2_pos)
  have "to_double x - x = (of_int (round_ties_even (x / ?u)) - x / ?u) * ?u"
    using False u by (simp add: to_double_def Let_def field_simps)
  then have "\<bar>to_double x - x\<bar> = \<bar>of_int (round_ties_even (x / ?u)) - x / ?u\<bar> * ?u"
    using u by (simp add: abs_mult)
  also have "\<dots> \<le> 1 / 2 * ?u"
    using round_ties_even_error [of "x / ?u"] u by (intro mult_right_mono) simp_all
  also have "\<dots> = pow2 (binade x) / 2 ^ 53"
  proof -
    have "pow2 (binade x) = pow2 (binade x - 52 + 52)" by simp
    also have "\<dots> = ?u * pow2 52" by (rule pow2_add)
    finally show ?thesis by (simp add: pow2_def)
  qed
  also have "\<dots> \<le> \<bar>x\<bar> / 2 ^ 53"
    using binade_bounds [OF False] by (simp add: divide_right_mono)
  finally show ?thesis .
qed

lemma to_double_error_nonneg:
  assumes "0 \<le> x"
  shows "\<bar>to_double x - x\<bar> \<le> (1 / 2 ^ 53) * x"
  using to_double_error [of x] assms by simp

lemma to_double_error_bounded:
  assumes "\<bar>x\<bar> \<le> c"
  shows "\<bar>to_double x - x\<bar> \<le> (1 / 2 ^ 53) * c"
proof -
  have "\<bar>to_double x - x\<bar> \<le> \<bar>x\<bar> / 2 ^ 53" by (rule to_double_error)
  also have "\<dots> \<le> c / 2 ^ 53" using assms by (simp add: divide_right_mono)
  finally show ?thesis by simp
qed

subsection \<open>Accuracy of the score computation\<close>

lemma drop_rate_error:
  fixes a b :: rat
  assumes a0: "0 \<le> a" and ab: "a \<le> b" and b0: "0 < b"
  shows "\<bar>to_double (to_double a / to_double b) - a / b\<bar> \<le> 5 * (1 / 2 ^ 53) \<and>
         0 \<le> to_double (to_double a / to_double b) \<and>
         to_double (to_double a / to_double b) \<le> 2"
proof -
  define u :: rat where "u = 1 / 2 ^ 53"
  have u: "0 < u" "u \<le> 1 / 8" by (simp_all add: u_def)
  define A where "A = to_double a"
  define B where "B = to_double b"
  have eA: "\<bar>A - a\<bar> \<le> u * a"
    unfolding A_def u_def by (rule to_double_error_nonneg [OF a0])
  have eB: "\<bar>B - b\<bar> \<le> u * b"
    unfolding B_def u_def using b0 by (intro to_double_error_nonneg) simp
  have "u * b \<le> 1 / 8 * b" using u b0 by (intro mult_right_mono) simp_all
  with eB have Blo: "7 / 8 * b \<le> B" by linarith
  with b0 have B0: "0 < B" by linarith
  have "u * a \<le> 1 / 8 * a" using u a0 by (intro mult_right_mono) simp_all
  with eA a0 have A0: "0 \<le> A" by linarith
  define r0 where "r0 = A / B"
  define e where "e = r0 - a / b"
  have r00: "0 \<le> r0" using A0 B0 by (simp add: r0_def)
  have eq: "e * (B * b) = A * b - a * B"
    using B0 b0 by (simp add: e_def r0_def field_simps)
  have "A * b - a * B = (A - a) * b - a * (B - b)" by (simp add: algebra_simps)
  then have "\<bar>A * b - a * B\<bar> \<le> \<bar>(A - a) * b\<bar> + \<bar>a * (B - b)\<bar>"
    by (simp only: abs_triangle_ineq4)
  also have "\<dots> = \<bar>A - a\<bar> * b + a * \<bar>B - b\<bar>"
    using a0 b0 by (simp add: abs_mult)
  also have "\<dots> \<le> (u * a) * b + a * (u * b)"
    using eA eB a0 b0 by (intro add_mono mult_right_mono mult_left_mono) simp_all
  finally have num: "\<bar>A * b - a * B\<bar> \<le> 2 * u * a * b" by (simp add: algebra_simps)
  have "\<bar>e\<bar> * (B * b) = \<bar>A * b - a * B\<bar>"
    using eq B0 b0 by (simp add: abs_mult flip: eq)
  with num have "(\<bar>e\<bar> * B) * b \<le> (2 * u * a) * b" by (simp add: algebra_simps)
  with b0 have eB': "\<bar>e\<bar> * B \<le> 2 * u * a" by (simp only: mult_le_cancel_right_pos)
  have "\<bar>e\<bar> * (7 / 8 * b) \<le> \<bar>e\<bar> * B" using Blo by (intro mult_left_mono) simp_all
  moreover have "2 * u * a \<le> 2 * u * b" using ab u by (intro mult_left_mono) simp_all
  ultimately have "(\<bar>e\<bar> * (7 / 8)) * b \<le> (2 * u) * b" using eB' by (simp add: algebra_simps)
  with b0 have "\<bar>e\<bar> * (7 / 8) \<le> 2 * u" by (simp only: mult_le_cancel_right_pos)
  then have eb: "\<bar>e\<bar> \<le> 3 * u" using u by linarith
  have rho: "0 \<le> a / b" "a / b \<le> 1" using a0 ab b0 by simp_all
  have r0hi: "r0 \<le> 3 / 2" using eb rho u unfolding e_def by linarith
  define r where "r = to_double r0"
  have "\<bar>r - r0\<bar> \<le> u * r0"
    unfolding r_def u_def by (rule to_double_error_nonneg [OF r00])
  moreover have "u * r0 \<le> u * (3 / 2)" using r0hi u by (intro mult_left_mono) simp_all
  ultimately have er: "\<bar>r - r0\<bar> \<le> 3 / 2 * u" by simp
  have "u * r0 \<le> 1 / 8 * r0" using u r00 by (intro mult_right_mono) simp_all
  with \<open>\<bar>r - r0\<bar> \<le> u * r0\<close> r00 have r_nonneg: "0 \<le> r" by linarith
  have "\<bar>r - a / b\<bar> \<le> 5 * u" using er eb unfolding e_def by linarith
  moreover have "r \<le> 2" using er r0hi u by linarith
  ultimately show ?thesis
    using r_nonneg unfolding r_def r0_def A_def B_def u_def by simp
qed

lemma kept_percent_error:
  assumes "0 \<le> sint dropped_frames" "sint dropped_frames \<le> sint total_frames"
    and "0 < sint total_frames"
  shows "\<bar>kept_percent contract dropped_frames total_frames -
           (100 - 100 * (of_int (sint dropped_frames) / of_int (sint total_frames)))\<bar>
         \<le> 1 / 2 ^ 43"
proof -
  define u :: rat where "u = 1 / 2 ^ 53"
  have u: "0 < u" "u \<le> 1 / 1000" by (simp_all add: u_def)
  define a :: rat where "a = of_int (sint dropped_frames)"
  define b :: rat where "b = of_int (sint total_frames)"
  have "0 \<le> a" "a \<le> b" "0 < b"
    unfolding a_def b_def using assms
    by (simp_all only: of_int_0_le_iff of_int_le_iff of_int_0_less_iff)
  from drop_rate_error [OF this]
  have r: "\<bar>drop_rate dropped_frames total_frames - a / b\<bar> \<le> 5 * u"
      "0 \<le> drop_rate dropped_frames total_frames" "drop_rate dropped_frames total_frames \<le> 2"
    by (simp_all add: drop_rate_def a_def b_def u_def)
  define r where "r = drop_rate dropped_frames total_frames"
  note r = r [folded r_def]
  have rho: "0 \<le> a / b" "a / b \<le> 1" using \<open>0 \<le> a\<close> \<open>a \<le> b\<close> \<open>0 < b\<close> by simp_all
  show ?thesis
  proof (cases contract)
    case True
    have "\<bar>100 - r * 100\<bar> \<le> 101" using r rho u by linarith
    from to_double_error_bounded [OF this]
    have "\<bar>to_double (100 - r * 100) - (100 - r * 100)\<bar> \<le> u * 101"
      by (simp add: u_def)
    then have "\<bar>to_double (100 - r * 100) - (100 - 100 * (a / b))\<bar> \<le> 800 * u"
      using r(1) u by linarith
    also have "\<dots> \<le> 1 / 2 ^ 43" by (simp add: u_def)
    finally show ?thesis
      using True by (simp add: kept_percent_def r_def a_def b_def)
  next
    case False
    define p where "p = to_double (r * 100)"
    have "\<bar>r * 100\<bar> \<le> 101" using r rho u by linarith
    from to_double_error_bounded [OF this]
    have ep: "\<bar>p - r * 100\<bar> \<le> u * 101" by (simp add: p_def u_def)
    then have "\<bar>100 - p\<bar> \<le> 102" using r rho u by linarith
    from to_double_error_bounded [OF this]
    have "\<bar>to_double (100 - p) - (100 - p)\<bar> \<le> u * 102" by (simp add: u_def)
    then have "\<bar>to_double (100 - p) - (100 - 100 * (a / b))\<bar> \<le> 1000 * u"
      using ep r(1) u by linarith
    also have "\<dots> \<le> 1 / 2 ^ 43" by (simp add: u_def)
    finally show ?thesis
      using False by (simp add: kept_percent_def r_def p_def a_def b_def)
  qed
qed

lemma clamped_truncation_near_floor:
  fixes k x :: rat
  assumes near: "\<bar>k - x\<bar> \<le> 1 / 2 ^ 43" and x: "0 \<le> x" "x \<le> 100"
  shows "\<bar>max 0 (min 100 (truncate_toward_zero k)) - \<lfloor>x\<rfloor>\<bar> \<le> 1"
proof -
  have eps: "(1 / 2 ^ 43 :: rat) < 1" by simp
  have fx: "0 \<le> \<lfloor>x\<rfloor>" "\<lfloor>x\<rfloor> \<le> 100" using x by linarith+
  have "\<bar>truncate_toward_zero k - \<lfloor>x\<rfloor>\<bar> \<le> 1"
  proof (cases "0 \<le> k")
    case True
    have "x - 1 \<le> k" "k \<le> x + 1" using near eps by linarith+
    then have "\<lfloor>x - 1\<rfloor> \<le> \<lfloor>k\<rfloor>" "\<lfloor>k\<rfloor> \<le> \<lfloor>x + 1\<rfloor>"
      by (simp_all only: floor_mono)
    then have "\<lfloor>x\<rfloor> - 1 \<le> \<lfloor>k\<rfloor>" "\<lfloor>k\<rfloor> \<le> \<lfloor>x\<rfloor> + 1" by simp_all
    with True show ?thesis by (simp add: truncate_toward_zero_def abs_le_iff)
  next
    case False
    then have "- 1 < k" "k < 0" using near x eps by linarith+
    then have "\<lceil>k\<rceil> = 0" by linarith
    moreover have "x < 1" using near eps \<open>k < 0\<close> by linarith
    then have "\<lfloor>x\<rfloor> = 0" using x by linarith
    ultimately show ?thesis using False by (simp add: truncate_toward_zero_def)
  qed
  with fx show ?thesis by linarith
qed

subsection \<open>Quality score (C5)\<close>

lemma sint_word_of_int_32:
  assumes "- 2147483648 \<le> k" "k \<le> 2147483647"
  shows "sint (word_of_int k :: 32 word) = k"
proof -
  have "sint (word_of_int k :: 32 word) = signed_take_bit 31 k"
    by (simp add: sint_sbintrunc')
  also have "\<dots> = k"
    using assms by (intro signed_take_bit_int_eq_self) simp_all
  finally show ?thesis .
qed

lemma sint_clamp_range:
  fixes q :: jint
  shows "0 \<le> sint (let q1 = (if sint q < 0 then 0 else q);
                        q2 = (if 100 < sint q1 then 100 else q1)
                    in q2) \<and>
         sint (let q1 = (if sint q < 0 then 0 else q);
                   q2 = (if 100 < sint q1 then 100 else q1)
               in q2) \<le> 100"
  by (auto simp: Let_def)

lemma sint_clamped_cast:
  assumes "int_representable x"
  shows "sint (let q = c_int_cast u x;
                   q1 = (if sint q < 0 then 0 else q);
                   q2 = (if 100 < sint q1 then 100 else q1)
               in q2) = max 0 (min 100 (truncate_toward_zero x))"
proof -
  have "sint (c_int_cast u x) = truncate_toward_zero x"
    using assms by (simp add: c_int_cast_def int_representable_def sint_word_of_int_32)
  then show ?thesis
    by (auto simp: Let_def)
qed

lemma quality_range:
  "0 \<le> sint (quality c u n t d) \<and> sint (quality c u n t d) \<le> 100"
  using sint_clamp_range [of "c_int_cast u (kept_percent c d t)"]
  by (simp add: quality_def Let_def)

lemma kept_percent_representable:
  assumes "0 \<le> sint d" "sint d \<le> sint t" "0 < sint t"
  shows "int_representable (kept_percent c d t)"
proof -
  define x :: rat where "x = 100 - 100 * (of_int (sint d) / of_int (sint t))"
  define k where "k = kept_percent c d t"
  have "(0 :: rat) \<le> of_int (sint d)" "(of_int (sint d) :: rat) \<le> of_int (sint t)"
       "(0 :: rat) < of_int (sint t)"
    using assms by (simp_all only: of_int_0_le_iff of_int_le_iff of_int_0_less_iff)
  then have "0 \<le> (of_int (sint d) / of_int (sint t) :: rat)"
    "(of_int (sint d) / of_int (sint t) :: rat) \<le> 1"
    by simp_all
  then have x: "0 \<le> x" "x \<le> 100" unfolding x_def by linarith+
  have "\<bar>k - x\<bar> \<le> 1 / 2 ^ 43"
    unfolding x_def k_def by (rule kept_percent_error [OF assms])
  moreover have "(1 / 2 ^ 43 :: rat) < 1" by simp
  ultimately have k: "- 1 < k" "k < 101" using x by linarith+
  then have "- 1 \<le> \<lfloor>k\<rfloor>" "\<lfloor>k\<rfloor> \<le> 101" "- 1 \<le> \<lceil>k\<rceil>" "\<lceil>k\<rceil> \<le> 101"
    by linarith+
  moreover have "truncate_toward_zero k = \<lfloor>k\<rfloor> \<or> truncate_toward_zero k = \<lceil>k\<rceil>"
    by (simp add: truncate_toward_zero_def)
  ultimately have "- 2147483648 \<le> truncate_toward_zero k \<and> truncate_toward_zero k \<le> 2147483647"
    by linarith
  then show ?thesis
    unfolding k_def by (simp only: int_representable_def)
qed

lemma quality_near_floor:
  assumes "0 < sint n" "0 < sint t" "0 \<le> sint d" "sint d \<le> sint t"
  shows "\<bar>sint (quality c u n t d) - \<lfloor>100 * (1 - of_int (sint d) / of_int (sint t) :: rat)\<rfloor>\<bar> \<le> 1"
proof -
  define x :: rat where "x = 100 - 100 * (of_int (sint d) / of_int (sint t))"
  have x_eq: "100 * (1 - of_int (sint d) / of_int (sint t) :: rat) = x"
    by (simp add: x_def algebra_simps)
  have "(0 :: rat) \<le> of_int (sint d)" "(of_int (sint d) :: rat) \<le> of_int (sint t)"
       "(0 :: rat) < of_int (sint t)"
    using assms by (simp_all only: of_int_0_le_iff of_int_le_iff of_int_0_less_iff)
  then have "0 \<le> (of_int (sint d) / of_int (sint t) :: rat)"
    "(of_int (sint d) / of_int (sint t) :: rat) \<le> 1"
    by simp_all
  then have x: "0 \<le> x" "x \<le> 100" unfolding x_def by linarith+
  have near: "\<bar>kept_percent c d t - x\<bar> \<le> 1 / 2 ^ 43"
    unfolding x_def by (rule kept_percent_error [OF assms(3,4,2)])
  have "sint (quality c u n t d) = max 0 (min 100 (truncate_toward_zero (kept_percent c d t)))"
    using sint_clamped_cast [OF kept_percent_representable [OF assms(3,4,2)], of u c] assms(1,2)
    by (simp add: quality_def)
  with clamped_truncation_near_floor [OF near x] show ?thesis
    by (simp only: x_eq)
qed

lemma kept_percent_25_100: "kept_percent c 25 100 = 75"
proof (cases c)
  case True
  have "kept_percent True 25 100 = 75" by code_simp
  with True show ?thesis by simp
next
  case False
  have "kept_percent False 25 100 = 75" by code_simp
  with False show ?thesis by simp
qed

lemma kept_percent_1_3:
  "truncate_toward_zero (kept_percent c 1 3) = 66"
proof (cases c)
  case True
  have "truncate_toward_zero (kept_percent True 1 3) = 66" by code_simp
  with True show ?thesis by simp
next
  case False
  have "truncate_toward_zero (kept_percent False 1 3) = 66" by code_simp
  with False show ?thesis by simp
qed

lemma kept_percent_56_100:
  "truncate_toward_zero (kept_percent c 56 100) = 43"
proof (cases c)
  case True
  have "truncate_toward_zero (kept_percent True 56 100) = 43" by code_simp
  with True show ?thesis by simp
next
  case False
  have "truncate_toward_zero (kept_percent False 56 100) = 43" by code_simp
  with False show ?thesis by simp
qed

lemma kept_percent_out_of_range:
  "\<not> int_representable (kept_percent c (- 4611686018427387904) 1)"
proof (cases c)
  case True
  have "\<not> int_representable (kept_percent True (- 4611686018427387904) 1)" by code_simp
  with True show ?thesis by simp
next
  case False
  have "\<not> int_representable (kept_percent False (- 4611686018427387904) 1)" by code_simp
  with False show ?thesis by simp
qed

lemma getPerformance_Some:
  assumes "receiverGetPerformance e w receiverPtr = Inr (Some r)"
  shows "rp_quality r = quality (pe_fp_contract e) (pe_int_cast_out_of_range e)
                          (pe_connections e)
                          (video_frames (pe_total e)) (video_frames (pe_dropped e)) \<and>
         rp_videoTotal r = video_frames (pe_total e) \<and>
         rp_videoDropped r = video_frames (pe_dropped e)"
  using assms
  by (auto simp: receiverGetPerformance_def split: if_splits option.splits)

lemma example_getPerformance:
  "receiverGetPerformance (example_perf_env c n t d\<lparr>pe_int_cast_out_of_range := u\<rparr>)
       (example_world :: 's world) 0x7000 =
     Inr (Some \<lparr>rp_videoTotal = t, rp_videoDropped = d, rp_audioTotal = 480,
                 rp_audioDropped = 0, rp_metadataTotal = 2, rp_quality = quality c u n t d\<rparr>)"
  "receiverGetPerformance (example_perf_env c n t d) (example_world :: 's world) 0x7000 =
     Inr (Some \<lparr>rp_videoTotal = t, rp_videoDropped = d, rp_audioTotal = 480,
                 rp_audioDropped = 0, rp_metadataTotal = 2,
                 rp_quality = quality c (- 2147483648) n t d\<rparr>)"
  by (simp_all add: receiverGetPerformance_def example_perf_env_def example_world_def)

lemma quality_of_truncation:
  assumes "truncate_toward_zero (kept_percent c d t) = k" "0 \<le> k" "k \<le> 100"
    and "0 < sint n" "0 < sint t"
  shows "quality c u n t d = word_of_int k"
proof -
  have rep: "int_representable (kept_percent c d t)"
    using assms(1-3) by (simp add: int_representable_def)
  have "sint (quality c u n t d) = k"
    using sint_clamped_cast [OF rep, of u] assms by (simp add: quality_def)
  then have "word_of_int (sint (quality c u n t d)) = (word_of_int k :: jint)"
    by simp
  then show ?thesis by simp
qed

lemma quality_1_3: "quality c u 1 3 1 = 66"
  using quality_of_truncation [OF kept_percent_1_3, where n = 1 and u = u] by simp

lemma quality_56_100: "quality c u 1 100 56 = 43"
  using quality_of_truncation [OF kept_percent_56_100, where n = 1 and u = u] by simp

text \<open>
  With one frame totalled and a drop counter of \<open>- 2 ^ 62\<close> the double is far above the
  range of \<^verbatim>\<open>int\<close>; the score is then the clamp of whatever the cast produces: 0 where
  it gives the least \<^verbatim>\<open>int\<close>, 100 where it saturates.
\<close>

lemma quality_out_of_range:
  "quality c u 1 1 (- 4611686018427387904) =
     (if sint u < 0 then 0 else if 100 < sint u then 100 else u)"
  using kept_percent_out_of_range [of c]
  by (simp add: quality_def c_int_cast_def Let_def)

text \<open>
  C5, as claimed: with connections and a positive total the score is
  \<open>clamp(round(100 * (1 - dropped / total)), 0, 100)\<close>.  With one frame dropped out of
  three the spec's formula rounds 66.67 to 67; the wrapper's cast truncates and reports
  66.  With 56 dropped out of 100 the formula gives 44; the double-precision value is
  just below 44 and the wrapper reports 43.  Both hold with and without contraction
  of the multiply and subtract.
\<close>

theorem getPerformance_quality_counterexample:
  "map_option rp_quality
     (projr (receiverGetPerformance (example_perf_env False 1 3 1)
               (example_world :: 's world) 0x7000)) = Some 66 \<and>
   map_option rp_quality
     (projr (receiverGetPerformance (example_perf_env True 1 3 1)
               (example_world :: 's world) 0x7000)) = Some 66 \<and>
   spec_quality 1 3 1 = 67 \<and>
   map_option rp_quality
     (projr (receiverGetPerformance (example_perf_env False 1 100 56)
               (example_world :: 's world) 0x7000)) = Some 43 \<and>
   map_option rp_quality
     (projr (receiverGetPerformance (example_perf_env True 1 100 56)
               (example_world :: 's world) 0x7000)) = Some 43 \<and>
   spec_quality 1 100 56 = 44"
proof -
  have "spec_quality 1 3 1 = 67" "spec_quality 1 100 56 = 44"
    by code_simp+
  then show ?thesis
    by (simp add: example_getPerformance quality_1_3 quality_56_100)
qed

text \<open>
  C5, amended.  For every \<^verbatim>\<open>receiverGetPerformance\<close> result the quality score is 0 when
  the connection count is not positive; 100 when it is positive and the total of video
  frames is not positive; and otherwise, when the double-precision value of
  \<open>100.0 - (dropped / total) * 100.0\<close> truncated toward zero fits an \<^verbatim>\<open>int\<close>, that
  truncated value clamped to \<open>[0, 100]\<close>.  For \<open>0 \<le> dropped \<le> total\<close> it does fit,
  and the score is within one of the exact \<open>\<lfloor>100 * (1 - dropped / total)\<rfloor>\<close>.  The
  score is always in \<open>[0, 100]\<close>, whatever \<^verbatim>\<open>int\<close> a cast that does not fit produces, and
  it is 75 for total 100 and dropped 25.
\<close>

theorem getPerformance_quality:
  "receiverGetPerformance e w receiverPtr = Inr (Some r) \<longrightarrow>
     (sint (pe_connections e) \<le> 0 \<longrightarrow> rp_quality r = 0) \<and>
     (0 < sint (pe_connections e) \<and> sint (video_frames (pe_total e)) \<le> 0 \<longrightarrow>
        rp_quality r = 100) \<and>
     (0 < sint (pe_connections e) \<and> 0 < sint (video_frames (pe_total e)) \<and>
      int_representable
        (kept_percent (pe_fp_contract e) (video_frames (pe_dropped e))
           (video_frames (pe_total e))) \<longrightarrow>
        sint (rp_quality r) =
          max 0 (min 100 (truncate_toward_zero
            (kept_percent (pe_fp_contract e) (video_frames (pe_dropped e))
               (video_frames (pe_total e)))))) \<and>
     (0 < sint (pe_connections e) \<and> 0 < sint (video_frames (pe_total e)) \<and>
      0 \<le> sint (video_frames (pe_dropped e)) \<and>
      sint (video_frames (pe_dropped e)) \<le> sint (video_frames (pe_total e)) \<longrightarrow>
        int_representable
          (kept_percent (pe_fp_contract e) (video_frames (pe_dropped e))
             (video_frames (pe_total e))) \<and>
        \<bar>sint (rp_quality r) -
           \<lfloor>100 * (1 - of_int (sint (video_frames (pe_dropped e))) /
                          of_int (sint (video_frames (pe_total e))) :: rat)\<rfloor>\<bar> \<le> 1) \<and>
     0 \<le> sint (rp_quality r) \<and> sint (rp_quality r) \<le> 100 \<and>
     (0 < sint (pe_connections e) \<and> video_frames (pe_total e) = 100 \<and>
      video_frames (pe_dropped e) = 25 \<longrightarrow> rp_quality r = 75)"
proof
  assume "receiverGetPerformance e w receiverPtr = Inr (Some r)"
  from getPerformance_Some [OF this]
  have q: "rp_quality r = quality (pe_fp_contract e) (pe_int_cast_out_of_range e)
                          (pe_connections e)
                          (video_frames (pe_total e)) (video_frames (pe_dropped e))"
    by blast
  let ?c = "pe_fp_contract e" and ?n = "pe_connections e" and ?u = "pe_int_cast_out_of_range e"
  let ?t = "video_frames (pe_total e)" and ?d = "video_frames (pe_dropped e)"
  have none: "sint ?n \<le> 0 \<longrightarrow> quality ?c ?u ?n ?t ?d = 0"
    by (simp add: quality_def)
  have empty: "0 < sint ?n \<and> sint ?t \<le> 0 \<longrightarrow> quality ?c ?u ?n ?t ?d = 100"
    by (simp add: quality_def)
  have main: "0 < sint ?n \<and> 0 < sint ?t \<and> int_representable (kept_percent ?c ?d ?t) \<longrightarrow>
      sint (quality ?c ?u ?n ?t ?d) =
        max 0 (min 100 (truncate_toward_zero (kept_percent ?c ?d ?t)))"
    using sint_clamped_cast [of "kept_percent ?c ?d ?t" ?u] by (simp add: quality_def)
  have near: "0 < sint ?n \<and> 0 < sint ?t \<and> 0 \<le> sint ?d \<and> sint ?d \<le> sint ?t \<longrightarrow>
      int_representable (kept_percent ?c ?d ?t) \<and>
      \<bar>sint (quality ?c ?u ?n ?t ?d) -
         \<lfloor>100 * (1 - of_int (sint ?d) / of_int (sint ?t) :: rat)\<rfloor>\<bar> \<le> 1"
    using quality_near_floor [of ?n ?t ?d ?c ?u] kept_percent_representable [of ?d ?t ?c]
    by blast
  have "truncate_toward_zero (kept_percent ?c 25 100) = 75"
    by (simp add: kept_percent_25_100 truncate_toward_zero_def)
  from quality_of_truncation [OF this, where u = ?u and n = ?n]
  have ex: "0 < sint ?n \<and> ?t = 100 \<and> ?d = 25 \<longrightarrow> quality ?c ?u ?n ?t ?d = 75"
    by simp
  show "(sint (pe_connections e) \<le> 0 \<longrightarrow> rp_quality r = 0) \<and>
     (0 < sint (pe_connections e) \<and> sint (video_frames (pe_total e)) \<le> 0 \<longrightarrow>
        rp_quality r = 100) \<and>
     (0 < sint (pe_connections e) \<and> 0 < sint (video_frames (pe_total e)) \<and>
      int_representable
        (kept_percent (pe_fp_contract e) (video_frames (pe_dropped e))
           (video_frames (pe_total e))) \<longrightarrow>
        sint (rp_quality r) =
          max 0 (min 100 (truncate_toward_zero
            (kept_percent (pe_fp_contract e) (video_frames (pe_dropped e))
               (video_frames (pe_total e)))))) \<and>
     (0 < sint (pe_connections e) \<and> 0 < sint (video_frames (pe_total e)) \<and>
      0 \<le> sint (video_frames (pe_dropped e)) \<and>
      sint (video_frames (pe_dropped e)) \<le> sint (video_frames (pe_total e)) \<longrightarrow>
        int_representable
          (kept_percent (pe_fp_contract e) (video_frames (pe_dropped e))
             (video_frames (pe_total e))) \<and>
        \<bar>sint (rp_quality r) -
           \<lfloor>100 * (1 - of_int (sint (video_frames (pe_dropped e))) /
                          of_int (sint (video_frames (pe_total e))) :: rat)\<rfloor>\<bar> \<le> 1) \<and>
     0 \<le> sint (rp_quality r) \<and> sint (rp_quality r) \<le> 100 \<and>
     (0 < sint (pe_connections e) \<and> video_frames (pe_total e) = 100 \<and>
      video_frames (pe_dropped e) = 25 \<longrightarrow> rp_quality r = 75)"
    unfolding q using none empty main near ex quality_range [of ?c ?u ?n ?t ?d] by blast
qed

theorem getPerformance_quality_witness:
  "map_option rp_quality
     (projr (receiverGetPerformance (example_perf_env False 0 100 25)
               (example_world :: 's world) 0x7000)) = Some 0 \<and>
   map_option rp_quality
     (projr (receiverGetPerformance (example_perf_env False 1 0 0)
               (example_world :: 's world) 0x7000)) = Some 100 \<and>
   map_option rp_quality
     (projr (receiverGetPerformance (example_perf_env False 1 100 25)
               (example_world :: 's world) 0x7000)) = Some 75 \<and>
   map_option rp_quality
     (projr (receiverGetPerformance (example_perf_env True 2 100 25)
               (example_world :: 's world) 0x7000)) = Some 75 \<and>
   int_representable (kept_percent True 1 3) \<and>
   map_option (sint \<circ> rp_quality)
     (projr (receiverGetPerformance (example_perf_env True 1 3 1)
               (example_world :: 's world) 0x7000)) = Some 66 \<and>
   int_representable (kept_percent False 56 100) \<and>
   \<bar>sint (quality False (- 2147483648) 1 100 56) - \<lfloor>100 * (1 - 56 / 100 :: rat)\<rfloor>\<bar> \<le> 1 \<and>
   \<not> int_representable (kept_percent False (- 4611686018427387904) 1) \<and>
   0 \<le> sint (quality False (- 2147483648) 1 1 (- 4611686018427387904)) \<and>
   sint (quality False (- 2147483648) 1 1 (- 4611686018427387904)) \<le> 100 \<and>
   quality False (- 2147483648) 1 1 (- 4611686018427387904) = 0 \<and>
   quality False 2147483647 1 1 (- 4611686018427387904) = 100"
proof -
  let ?w = "example_world :: 's world"
  let ?r = "\<lambda>c n t d. \<lparr>rp_videoTotal = t, rp_videoDropped = d, rp_audioTotal = 480,
                 rp_audioDropped = 0, rp_metadataTotal = 2,
                 rp_quality = quality c (- 2147483648) n t d\<rparr>"
  note ex = example_getPerformance(2) [where ?'s = 's]
  have a: "quality False (- 2147483648) 0 100 25 = 0"
    using getPerformance_quality
            [of "example_perf_env False 0 100 25" ?w "0x7000" "?r False 0 100 25"] ex
    by (simp add: example_perf_env_def)
  have b: "quality False (- 2147483648) 1 0 0 = 100"
    using getPerformance_quality
            [of "example_perf_env False 1 0 0" ?w "0x7000" "?r False 1 0 0"] ex
    by (simp add: example_perf_env_def)
  have c: "quality False (- 2147483648) 1 100 25 = 75"
    using getPerformance_quality
            [of "example_perf_env False 1 100 25" ?w "0x7000" "?r False 1 100 25"] ex
    by (simp add: example_perf_env_def)
  have d: "quality True (- 2147483648) 2 100 25 = 75"
    using getPerformance_quality
            [of "example_perf_env True 2 100 25" ?w "0x7000" "?r True 2 100 25"] ex
    by (simp add: example_perf_env_def)
  have rep: "int_representable (kept_percent True 1 3)"
    by (simp add: int_representable_def kept_percent_1_3)
  have e: "sint (quality True (- 2147483648) 1 3 1) = 66"
    using getPerformance_quality
            [of "example_perf_env True 1 3 1" ?w "0x7000" "?r True 1 3 1"] ex rep
    by (simp add: example_perf_env_def kept_percent_1_3)
  have f: "int_representable (kept_percent False 56 100) \<and>
      \<bar>sint (quality False (- 2147483648) 1 100 56) - \<lfloor>100 * (1 - 56 / 100 :: rat)\<rfloor>\<bar> \<le> 1"
    using getPerformance_quality
            [of "example_perf_env False 1 100 56" ?w "0x7000" "?r False 1 100 56"] ex
    by (auto simp: example_perf_env_def)
  have g: "0 \<le> sint (quality False (- 2147483648) 1 1 (- 4611686018427387904)) \<and>
      sint (quality False (- 2147483648) 1 1 (- 4611686018427387904)) \<le> 100"
    using getPerformance_quality
            [of "example_perf_env False 1 1 (- 4611686018427387904)" ?w "0x7000"
                "?r False 1 1 (- 4611686018427387904)"] ex
    by (auto simp: example_perf_env_def)
  have h: "quality False (- 2147483648) 1 1 (- 4611686018427387904) = 0"
    "quality False 2147483647 1 1 (- 4611686018427387904) = 100"
    by (simp_all add: quality_out_of_range)
  show ?thesis
    using f g rep kept_percent_out_of_range [of False] by (simp add: ex a b c d e h)
qed

subsection \<open>Source discovery (C8)\<close>

lemma fill_sources_none:
  "fe_no_sources e = 0 \<Longrightarrow> fill_sources e 0 [] = Inr []"
  by (subst fill_sources.simps) simp

lemma fill_sources_all:
  assumes "fe_sources e = Some srcs" "length srcs = unat (fe_no_sources e)"
    and "length pre = i" "i \<le> unat (fe_no_sources e)"
  shows "fill_sources e i (pre @ replicate (unat (fe_no_sources e) - i) None) =
           Inr (pre @ map (source_name e srcs) [i ..< unat (fe_no_sources e)])"
  using assms
proof (induction "unat (fe_no_sources e) - i" arbitrary: i pre)
  case 0
  then have "i = unat (fe_no_sources e)" by simp
  then show ?case by (subst fill_sources.simps) simp
next
  case (Suc k)
  let ?n = "unat (fe_no_sources e)"
  from Suc.hyps(2) have lt: "i < ?n" and k: "k = ?n - Suc i" by linarith+
  have rep: "replicate (?n - i) None = (None :: string option) # replicate (?n - Suc i) None"
    using lt by (simp add: Suc_diff_Suc flip: replicate_Suc)
  let ?x = "source_name e srcs i"
  have upd: "(pre @ replicate (?n - i) None)[i := ?x] = (pre @ [?x]) @ replicate (?n - Suc i) None"
  proof -
    have "(pre @ None # replicate (?n - Suc i) None)[length pre := ?x] =
            pre @ ?x # replicate (?n - Suc i) None"
      by (rule list_update_length)
    then show ?thesis
      unfolding rep using Suc.prems(3) by simp
  qed
  have same: "?x = None \<Longrightarrow>
      pre @ replicate (?n - i) None = (pre @ [?x]) @ replicate (?n - Suc i) None"
    by (simp add: rep)
  have ih: "fill_sources e (Suc i) ((pre @ [?x]) @ replicate (?n - Suc i) None) =
              Inr ((pre @ [?x]) @ map (source_name e srcs) [Suc i ..< ?n])"
    by (rule Suc.hyps(1) [OF k Suc.prems(1,2)]) (use Suc.prems(3) lt in simp_all)
  have "fill_sources e i (pre @ replicate (?n - i) None) =
          fill_sources e (Suc i) ((pre @ [?x]) @ replicate (?n - Suc i) None)"
  proof (cases "fe_new_string_ok e i")
    case True
    then show ?thesis
      using lt Suc.prems(1,2) upd
      by (subst fill_sources.simps) (simp add: source_name_def Let_def)
  next
    case False
    then have "?x = None" by (simp add: source_name_def)
    from same [OF this] False show ?thesis
      using lt Suc.prems(1,2)
      by (subst fill_sources.simps) (simp add: source_name_def Let_def)
  qed
  also note ih
  also have "(pre @ [?x]) @ map (source_name e srcs) [Suc i ..< ?n] =
               pre @ map (source_name e srcs) [i ..< ?n]"
    using lt by (simp add: upt_conv_Cons)
  finally show ?case .
qed

lemma getSources_all:
  assumes "finderPtr \<noteq> 0" "finders finderPtr = Some wrapper" "finder wrapper \<noteq> 0"
    and "fe_find_class_ok e" "fe_new_array_ok e"
    and "fe_sources e = Some srcs" "length srcs = unat (fe_no_sources e)"
  shows "finderGetSources e finders finderPtr =
           Inr (Some (map (source_name e srcs) [0 ..< length srcs]))"
  using assms fill_sources_all [OF assms(6,7), of "[]" 0]
  by (simp add: finderGetSources_def)

text \<open>
  C8, as claimed: a valid finder that currently sees zero sources always yields an empty
  sequence.  When \<^verbatim>\<open>NewObjectArray\<close> fails the wrapper returns null instead of an empty
  array.
\<close>

theorem getSources_counterexample:
  "fe_no_sources (example_finder_env\<lparr>fe_new_array_ok := False\<rparr>) = 0 \<and>
   map_option finder (example_finders 0x6000) = Some 0x4000 \<and>
   finderGetSources (example_finder_env\<lparr>fe_new_array_ok := False\<rparr>) example_finders 0x6000 =
     Inr None \<and>
   finderGetSources (example_finder_env\<lparr>fe_new_array_ok := False\<rparr>) example_finders 0x6000 \<noteq>
     Inr (Some [])"
  by (simp add: finderGetSources_def example_finder_env_def example_finders_def)

text \<open>
  C8, amended.  \<^verbatim>\<open>finderGetSources\<close> returns null, not a fault, for the zero handle and
  for a handle whose discovery instance is null; for a valid finder that currently sees
  zero sources it returns the empty array when the string class lookup and the array
  allocation succeed, and null when either fails.  More generally, for a valid finder
  whose engine array has as many entries as the engine's count, it returns the names in
  order under the same condition.
\<close>

theorem getSources_results:
  "(finderGetSources e finders 0 = Inr None) \<and>
   (finders finderPtr = Some wrapper \<and> finder wrapper = 0 \<longrightarrow>
      finderGetSources e finders finderPtr = Inr None) \<and>
   (finderPtr \<noteq> 0 \<and> finders finderPtr = Some wrapper \<and> finder wrapper \<noteq> 0 \<and>
    fe_no_sources e = 0 \<longrightarrow>
      finderGetSources e finders finderPtr =
        (if fe_find_class_ok e \<and> fe_new_array_ok e then Inr (Some []) else Inr None)) \<and>
   (finderPtr \<noteq> 0 \<and> finders finderPtr = Some wrapper \<and> finder wrapper \<noteq> 0 \<and>
    fe_sources e = Some srcs \<and> length srcs = unat (fe_no_sources e) \<longrightarrow>
      finderGetSources e finders finderPtr =
        (if fe_find_class_ok e \<and> fe_new_array_ok e
         then Inr (Some (map (source_name e srcs) [0 ..< length srcs])) else Inr None))"
proof (intro conjI impI)
  assume a: "finderPtr \<noteq> 0 \<and> finders finderPtr = Some wrapper \<and> finder wrapper \<noteq> 0 \<and>
    fe_sources e = Some srcs \<and> length srcs = unat (fe_no_sources e)"
  show "finderGetSources e finders finderPtr =
        (if fe_find_class_ok e \<and> fe_new_array_ok e
         then Inr (Some (map (source_name e srcs) [0 ..< length srcs])) else Inr None)"
  proof (cases "fe_find_class_ok e \<and> fe_new_array_ok e")
    case True
    with a getSources_all [of finderPtr finders wrapper e srcs] show ?thesis by simp
  next
    case False
    with a show ?thesis by (auto simp: finderGetSources_def)
  qed
qed (auto simp: finderGetSources_def fill_sources_none)

theorem getSources_results_witness:
  "finderGetSources example_finder_env example_finders 0 = Inr None \<and>
   finderGetSources example_finder_env example_finders 0x6100 = Inr None \<and>
   finderGetSources example_finder_env example_finders 0x6000 = Inr (Some []) \<and>
   finderGetSources (example_finder_env\<lparr>fe_find_class_ok := False\<rparr>) example_finders 0x6000 =
     Inr None \<and>
   finderGetSources example_two_sources_env example_finders 0x6000 =
     Inr (Some [Some ''CAM 1'', Some ''''])"
proof -
  note r = getSources_results [of _ example_finders]
  have "finderGetSources example_two_sources_env example_finders 0x6000 =
     Inr (Some [Some ''CAM 1'', Some ''''])"
    using r [of example_two_sources_env "0x6000" "\<lparr>finder = 0x4000\<rparr>" "[Some ''CAM 1'', None]"]
    by (simp add: example_two_sources_env_def example_finders_def source_name_def)
  then show ?thesis
    using r [of example_finder_env "0x6100" "\<lparr>finder = 0\<rparr>"]
          r [of example_finder_env "0x6000" "\<lparr>finder = 0x4000\<rparr>"]
          r [of "example_finder_env\<lparr>fe_find_class_ok := False\<rparr>" "0x6000" "\<lparr>finder = 0x4000\<rparr>"]
    by (simp add: example_finder_env_def example_finders_def)
qed

end
